theory Spec2Isabelle
  imports Main "HOL-Library.Word"
begin

section \<open>The ONNX Runtime backend: batched execution (src/backends/onnx/onnx_backend.cc)\<close>

text \<open>
  A shallow embedding of \<^verbatim>\<open>OnnxBackend::Run\<close>, \<^verbatim>\<open>OnnxBackend::Context::Run\<close>,
  \<^verbatim>\<open>SetInputTensor\<close>, \<^verbatim>\<open>ReadOutputTensors\<close> and \<^verbatim>\<open>ReleaseOrtRunResources\<close>.
  Mutation is explicit state passing; the calls into the ONNX runtime and into the
  request and response providers, whose code is outside this file, are parameters.
  A trailing underscore of a C++ member name is dropped (\<^verbatim>\<open>status_\<close> is \<open>status\<close>).
  Status messages, logging, timers and statistics are left out.
\<close>

subsection \<open>Machine integers and memory\<close>

text \<open>
  \<^verbatim>\<open>size_t\<close> is 64 bits wide; every \<^verbatim>\<open>size_t\<close> sum and product of the source is
  reduced modulo \<open>2 ^ 64\<close>. A signed integer converted to \<^verbatim>\<open>size_t\<close> is reduced the
  same way, and a \<^verbatim>\<open>size_t\<close> pushed into a vector of \<^verbatim>\<open>int64_t\<close> is read back as
  two's complement.
\<close>

definition size_t :: "nat \<Rightarrow> nat" where
  "size_t n = n mod 2 ^ 64"

definition size_t_of_int :: "int \<Rightarrow> nat" where
  "size_t_of_int i = nat (i mod 2 ^ 64)"

definition int64_of_size_t :: "nat \<Rightarrow> int" where
  "int64_of_size_t n = (if n < 2 ^ 63 then int n else int n - 2 ^ 64)"

text \<open>
  A memory cell holds a byte, or nothing yet: \<^verbatim>\<open>new char[n]\<close> yields \<open>n\<close> cells
  without a value.
\<close>

type_synonym byte = "8 word"
type_synonym cell = "byte option"

text \<open>
  \<^verbatim>\<open>memcpy(buffer + pos, content, content_byte_size)\<close>. The source guards the call so
  that \<open>pos + length bytes \<le> length buffer\<close>; there the buffer keeps its length. A copy
  that leaves the buffer is undefined behaviour in C++, and no theorem below relies on the
  value of \<open>memcpy\<close> in that case.
\<close>

definition memcpy :: "cell list \<Rightarrow> nat \<Rightarrow> byte list \<Rightarrow> cell list" where
  "memcpy buffer pos bytes =
     take pos buffer @ map Some bytes @ drop (pos + length bytes) buffer"

text \<open>
  The source of a \<^verbatim>\<open>memcpy\<close> out of a tensor: \<open>n\<close> cells from \<open>pos\<close> on.
\<close>

definition slice :: "'a list \<Rightarrow> nat \<Rightarrow> nat \<Rightarrow> 'a list" where
  "slice xs pos n = take n (drop pos xs)"

subsection \<open>Status\<close>

text \<open>
  \<^verbatim>\<open>RequestStatusCode\<close> is declared outside this file; the codes this file uses are
  named, any other code is \<open>OTHER\<close>.
\<close>

datatype RequestStatusCode = SUCCESS | INTERNAL | INVALID_ARG | OTHER nat

datatype Status = Status (Code: RequestStatusCode)

definition Success :: Status where
  "Success = Status SUCCESS"

definition IsOk :: "Status \<Rightarrow> bool" where
  "IsOk s = (Code s = SUCCESS)"

text \<open>An \<^verbatim>\<open>OrtStatus*\<close> is null on success and carries a message otherwise.\<close>

type_synonym OrtStatus = "string option"

text \<open>
  Modelled from the spec: \<^verbatim>\<open>RETURN_IF_ORT_ERROR\<close> is a macro of onnx_utils.h, which is
  not at hand; it returns from the enclosing function with a failed status when the
  runtime reports an error ("Any computation failure fails the entire run atomically").
  \<open>ort_error\<close> is that status.
\<close>

definition ort_error :: "string \<Rightarrow> Status" where
  "ort_error msg = Status INTERNAL"

subsection \<open>Payloads and their providers\<close>

text \<open>
  \<^verbatim>\<open>DataType\<close> and \<^verbatim>\<open>ONNXTensorElementDataType\<close> are enumerations declared elsewhere;
  they are carried as their integer values.
\<close>

type_synonym DataType = nat
type_synonym ONNXTensorElementDataType = nat

text \<open>
  One answer of \<^verbatim>\<open>GetNextInputContent\<close>: the returned status and \<^verbatim>\<open>content\<close>
  (\<open>None\<close> is \<^verbatim>\<open>nullptr\<close>); \<^verbatim>\<open>content_byte_size\<close> is the length of the chunk.
  The request provider is an external collaborator: \<open>content\<close> is, for each input name,
  the list of answers it still has to give, in order, and once the list is used up it
  answers with an OK status and no content. The size hint passed in leaves the provider
  free to return a larger or a smaller chunk and is not part of the model. A provider
  that never stops handing out empty chunks would keep the loop of lines 431-461 running;
  every provider of the model comes to an end.
\<close>

type_synonym reply = "Status \<times> byte list option"

record InferRequestProvider =
  batch_size :: nat
  input :: "(string \<times> int list) list"
  GetInputOverride :: "(string \<times> DataType \<times> int list) list option"
  content :: "string \<Rightarrow> reply list"

text \<open>
  The response provider: \<open>AllocateOutputBuffer\<close> is the status its allocator returns for
  a name, a byte size and a shape; \<open>requests\<close> records every call with the requested
  size, and the cells copied into the buffer when the allocation succeeded.
\<close>

record InferResponseProvider =
  RequiresOutput :: "string \<Rightarrow> bool"
  AllocateOutputBuffer :: "string \<Rightarrow> nat \<Rightarrow> int list \<Rightarrow> Status"
  requests :: "(string \<times> nat \<times> cell list option) list"

record Payload =
  request_provider :: InferRequestProvider
  response_provider :: "InferResponseProvider option"
  status :: Status

subsection \<open>Contexts, the model configuration and the runtime\<close>

record OrtValue =
  data :: "cell list"
  shape :: "int list"
  elem_type :: ONNXTensorElementDataType

record Context =
  ctx_name :: string
  gpu_device :: int
  max_batch_size :: int
  session :: "nat option"
  allocator_info :: "nat option"
  input_tensors :: "OrtValue option list"
  output_tensors :: "OrtValue option list"

text \<open>
  Modelled from the spec: \<^verbatim>\<open>Context::NO_BATCHING\<close> is declared in onnx_backend.h, which
  is not at hand; it is the "sentinel value meaning no batching", and the comments of
  \<^verbatim>\<open>CreateExecutionContext\<close> and \<^verbatim>\<open>Context::Run\<close> give its value ("A value of 0 in the
  config becomes NO_BATCHING", "i.e. max_batch_size_ == 0").
\<close>

definition NO_BATCHING :: int where
  "NO_BATCHING = 0"

record ModelIO =
  io_name :: string
  data_type :: DataType
  io_dims :: "int list"

record ModelConfig =
  config_input :: "ModelIO list"
  config_output :: "ModelIO list"
  config_max_batch_size :: int

record OnnxBackend =
  Config :: ModelConfig
  contexts :: "Context list"

text \<open>
  Modelled from the spec: \<^verbatim>\<open>GetInput\<close> belongs to the base class of the backend, which
  is not at hand; it looks a name up among the inputs that the model descriptor declares
  and fails when the name is not declared there.
\<close>

definition GetInput :: "OnnxBackend \<Rightarrow> string \<Rightarrow> Status + ModelIO" where
  "GetInput base nm =
     (case find (\<lambda>io. io_name io = nm) (config_input (Config base)) of
        None \<Rightarrow> Inl (Status INVALID_ARG)
      | Some io \<Rightarrow> Inr io)"

text \<open>
  Modelled from the spec: \<^verbatim>\<open>GetOutput\<close>, the same lookup among the declared outputs.
\<close>

definition GetOutput :: "OnnxBackend \<Rightarrow> string \<Rightarrow> Status + ModelIO" where
  "GetOutput base nm =
     (case find (\<lambda>io. io_name io = nm) (config_output (Config base)) of
        None \<Rightarrow> Inl (Status INVALID_ARG)
      | Some io \<Rightarrow> Inr io)"

text \<open>
  What this file calls and does not define: the datatype helpers of the server core and
  the C API of the ONNX runtime. \<open>OrtRun\<close> returns its status and the values it stored
  into the output array.
\<close>

record Externals =
  GetDataTypeByteSize :: "DataType \<Rightarrow> nat"
  ConvertToOnnxDataType :: "DataType \<Rightarrow> ONNXTensorElementDataType"
  ConvertFromOnnxDataType :: "ONNXTensorElementDataType \<Rightarrow> DataType"
  GetElementCount :: "int list \<Rightarrow> int"
  OrtCreateTensorWithDataAsOrtValue ::
    "nat option \<Rightarrow> cell list \<Rightarrow> nat \<Rightarrow> int list \<Rightarrow> ONNXTensorElementDataType \<Rightarrow> OrtStatus"
  OrtRun ::
    "nat option \<Rightarrow> string list \<Rightarrow> OrtValue option list \<Rightarrow> string list
       \<Rightarrow> OrtStatus \<times> OrtValue option list"
  OrtGetTensorMutableData :: "OrtValue \<Rightarrow> OrtStatus"
  OrtGetTypeInfo :: "OrtValue \<Rightarrow> OrtStatus"

text \<open>What the backend does to the outside world, in the order it does it.\<close>

datatype event =
    EvOrtRun "string list" "OrtValue option list" "string list"
  | EvOrtReleaseValue OrtValue
  | EvOnComplete Status

subsection \<open>SetInputTensor\<close>

text \<open>Lines 402-416: the element count of one batch item, with the source's wrap-around.\<close>

definition batch1_element_cnt :: "int list \<Rightarrow> nat" where
  "batch1_element_cnt dims = foldl (\<lambda>cnt dim. size_t (cnt * size_t_of_int dim)) 1 dims"

definition batch1_byte_size :: "Externals \<Rightarrow> DataType \<Rightarrow> int list \<Rightarrow> nat" where
  "batch1_byte_size ext datatype dims =
     size_t (batch1_element_cnt dims * GetDataTypeByteSize ext datatype)"

text \<open>Lines 403-412: the batch dimension is added only if the model supports batching.\<close>

definition input_dims :: "Context \<Rightarrow> nat \<Rightarrow> int list \<Rightarrow> int list" where
  "input_dims ctx total_batch_size dims =
     (if max_batch_size ctx \<noteq> NO_BATCHING then [int64_of_size_t total_batch_size] else [])
       @ dims"

text \<open>
  Lines 431-461, the \<^verbatim>\<open>while\<close> loop of one payload, entered with an OK status: the
  answers of the provider are taken one by one. The result is the status of the payload,
  the answers left, the buffer and \<^verbatim>\<open>copied_byte_size\<close>.
\<close>

fun copy_content ::
  "nat \<Rightarrow> nat \<Rightarrow> reply list \<Rightarrow> cell list \<Rightarrow> nat \<Rightarrow> Status \<times> reply list \<times> cell list \<times> nat"
where
  "copy_content total_byte_size buffer_copy_offset [] buffer copied_byte_size =
     (Success, [], buffer, copied_byte_size)"
| "copy_content total_byte_size buffer_copy_offset ((st, c) # rs) buffer copied_byte_size =
     (if \<not> IsOk st then (st, rs, buffer, copied_byte_size)
      else case c of
        None \<Rightarrow> (st, rs, buffer, copied_byte_size)
      | Some bytes \<Rightarrow>
          if size_t (size_t (buffer_copy_offset + copied_byte_size) + length bytes)
               > total_byte_size
          then (Status INVALID_ARG, rs, buffer, copied_byte_size)
          else copy_content total_byte_size buffer_copy_offset rs
                 (memcpy buffer (buffer_copy_offset + copied_byte_size) bytes)
                 (size_t (copied_byte_size + length bytes)))"

text \<open>
  Lines 425-471, the body of the loop over the payloads: the payload afterwards, the
  buffer, and the next \<^verbatim>\<open>buffer_copy_offset\<close>.
\<close>

definition SetInputTensor_payload ::
  "string \<Rightarrow> nat \<Rightarrow> nat \<Rightarrow> nat \<Rightarrow> cell list \<Rightarrow> Payload \<Rightarrow> Payload \<times> cell list \<times> nat"
where
  "SetInputTensor_payload nm total_byte_size b1_byte_size buffer_copy_offset buffer payload =
     (let rp = request_provider payload;
          expected_byte_size = size_t (batch_size rp * b1_byte_size);
          (st, rs, buffer', copied_byte_size) =
            (if IsOk (status payload)
             then copy_content total_byte_size buffer_copy_offset (content rp nm) buffer 0
             else (status payload, content rp nm, buffer, 0));
          st' = (if IsOk st \<and> copied_byte_size \<noteq> expected_byte_size
                 then Status INTERNAL else st)
      in (payload\<lparr>request_provider := rp\<lparr>content := (content rp)(nm := rs)\<rparr>, status := st'\<rparr>,
          buffer',
          size_t (buffer_copy_offset + expected_byte_size)))"

text \<open>Lines 423-472: the payloads are visited in order.\<close>

fun SetInputTensor_payloads ::
  "string \<Rightarrow> nat \<Rightarrow> nat \<Rightarrow> nat \<Rightarrow> cell list \<Rightarrow> Payload list \<Rightarrow> Payload list \<times> cell list"
where
  "SetInputTensor_payloads nm total_byte_size b1_byte_size buffer_copy_offset buffer [] =
     ([], buffer)"
| "SetInputTensor_payloads nm total_byte_size b1_byte_size buffer_copy_offset buffer (p # ps) =
     (case SetInputTensor_payload nm total_byte_size b1_byte_size buffer_copy_offset buffer p of
        (p', buffer', offset') \<Rightarrow>
          (case SetInputTensor_payloads nm total_byte_size b1_byte_size offset' buffer' ps of
             (ps', buffer'') \<Rightarrow> (p' # ps', buffer'')))"

text \<open>
  Lines 392-482. The result is the returned status, the context (a slot is appended to
  \<^verbatim>\<open>input_tensors_\<close> and filled when the runtime wraps the buffer), the payloads, and
  the caller's \<^verbatim>\<open>input_buffers\<close> and \<^verbatim>\<open>input_names\<close>. The tensor refers to the
  buffer, which is not written again, so it carries the buffer's cells. The allocation
  of the buffer is taken to succeed (\<^verbatim>\<open>new\<close> would throw otherwise).
\<close>

definition SetInputTensor ::
  "Externals \<Rightarrow> Context \<Rightarrow> string \<Rightarrow> DataType \<Rightarrow> int list \<Rightarrow> nat \<Rightarrow> Payload list
     \<Rightarrow> cell list list \<Rightarrow> string list
     \<Rightarrow> Status \<times> Context \<times> Payload list \<times> cell list list \<times> string list"
where
  "SetInputTensor ext ctx nm datatype dims total_batch_size payloads input_buffers input_names =
     (let input_names' = input_names @ [nm];
          ctx' = ctx\<lparr>input_tensors := input_tensors ctx @ [None]\<rparr>;
          b1_byte_size = batch1_byte_size ext datatype dims;
          total_byte_size = size_t (total_batch_size * b1_byte_size);
          (payloads', buffer) =
            SetInputTensor_payloads nm total_byte_size b1_byte_size 0
              (replicate total_byte_size None) payloads;
          input_buffers' = input_buffers @ [buffer];
          dims' = input_dims ctx total_batch_size dims;
          onnx_type = ConvertToOnnxDataType ext datatype
      in case OrtCreateTensorWithDataAsOrtValue ext (allocator_info ctx) buffer
                total_byte_size dims' onnx_type of
           Some msg \<Rightarrow> (ort_error msg, ctx', payloads', input_buffers', input_names')
         | None \<Rightarrow>
             (Success,
              ctx'\<lparr>input_tensors := input_tensors ctx
                      @ [Some \<lparr>data = buffer, shape = dims', elem_type = onnx_type\<rparr>]\<rparr>,
              payloads', input_buffers', input_names'))"

subsection \<open>ReadOutputTensors\<close>

text \<open>
  Lines 541-563, the body of the loop over the payloads for one output: the payload
  afterwards and the next \<^verbatim>\<open>content_offset\<close>. The copy out of the tensor reads
  \<open>expected_byte_size\<close> cells from \<open>content_offset\<close> on; a read beyond the data of the
  tensor is undefined behaviour in C++, and \<open>slice\<close> then yields the cells that exist.
\<close>

definition ReadOutputTensors_payload ::
  "string \<Rightarrow> cell list \<Rightarrow> int list \<Rightarrow> nat \<Rightarrow> nat \<Rightarrow> Payload \<Rightarrow> Payload \<times> nat"
where
  "ReadOutputTensors_payload nm tensor_content content_shape b1_byte_size content_offset payload =
     (let expected_byte_size = size_t (batch_size (request_provider payload) * b1_byte_size);
          payload' =
            (case response_provider payload of
               None \<Rightarrow> payload
             | Some resp \<Rightarrow>
                 if RequiresOutput resp nm then
                   (let st = AllocateOutputBuffer resp nm expected_byte_size content_shape
                    in if IsOk st
                       then payload\<lparr>response_provider := Some (resp\<lparr>requests := requests resp @
                              [(nm, expected_byte_size,
                                Some (slice tensor_content content_offset expected_byte_size))]\<rparr>)\<rparr>
                       else payload\<lparr>response_provider := Some (resp\<lparr>requests := requests resp @
                              [(nm, expected_byte_size, None)]\<rparr>),
                            status := st\<rparr>)
                 else payload)
      in (payload', size_t (content_offset + expected_byte_size)))"

text \<open>Lines 538-564.\<close>

fun ReadOutputTensors_payloads ::
  "string \<Rightarrow> cell list \<Rightarrow> int list \<Rightarrow> nat \<Rightarrow> nat \<Rightarrow> Payload list \<Rightarrow> Payload list"
where
  "ReadOutputTensors_payloads nm tensor_content content_shape b1_byte_size content_offset [] = []"
| "ReadOutputTensors_payloads nm tensor_content content_shape b1_byte_size content_offset (p # ps) =
     (case ReadOutputTensors_payload nm tensor_content content_shape b1_byte_size content_offset p of
        (p', offset') \<Rightarrow>
          p' # ReadOutputTensors_payloads nm tensor_content content_shape b1_byte_size offset' ps)"

text \<open>
  Lines 491-564, the body of the loop over the outputs: either the status the function
  returns with, or the payloads after this output. \<^verbatim>\<open>output_tensors_[idx]\<close> is read
  as null beyond the end of the vector (the caller has reserved one slot per name).
  Callers pass a nonzero \<^verbatim>\<open>total_batch_size\<close>; the division is by that number.
\<close>

definition ReadOutputTensors_output ::
  "Externals \<Rightarrow> OnnxBackend \<Rightarrow> Context \<Rightarrow> nat \<Rightarrow> nat \<Rightarrow> string \<Rightarrow> Payload list
     \<Rightarrow> Status + Payload list"
where
  "ReadOutputTensors_output ext base ctx total_batch_size idx nm payloads =
     (case GetOutput base nm of
        Inl e \<Rightarrow> Inl e
      | Inr output_config \<Rightarrow>
         (case (if idx < length (output_tensors ctx) then output_tensors ctx ! idx else None) of
            None \<Rightarrow> Inl (Status INTERNAL)
          | Some output_tensor \<Rightarrow>
             (case OrtGetTensorMutableData ext output_tensor of
                Some msg \<Rightarrow> Inl (ort_error msg)
              | None \<Rightarrow>
                 (case OrtGetTypeInfo ext output_tensor of
                    Some msg \<Rightarrow> Inl (ort_error msg)
                  | None \<Rightarrow>
                     (let content_shape = shape output_tensor;
                          type = elem_type output_tensor;
                          element_count = size_t_of_int (GetElementCount ext content_shape);
                          total_byte_size =
                            size_t (element_count
                                      * GetDataTypeByteSize ext (ConvertFromOnnxDataType ext type));
                          actual_byte_size =
                            size_t (element_count
                                      * GetDataTypeByteSize ext (data_type output_config));
                          b1_byte_size = total_byte_size div total_batch_size
                      in if actual_byte_size \<noteq> total_byte_size then Inl (Status INTERNAL)
                         else Inr (ReadOutputTensors_payloads nm (data output_tensor)
                                     content_shape b1_byte_size 0 payloads))))))"

text \<open>Lines 490-566: the outputs are visited by index.\<close>

fun ReadOutputTensors_loop ::
  "Externals \<Rightarrow> OnnxBackend \<Rightarrow> Context \<Rightarrow> nat \<Rightarrow> nat \<Rightarrow> string list \<Rightarrow> Payload list
     \<Rightarrow> Status \<times> Payload list"
where
  "ReadOutputTensors_loop ext base ctx total_batch_size idx [] payloads = (Success, payloads)"
| "ReadOutputTensors_loop ext base ctx total_batch_size idx (nm # nms) payloads =
     (case ReadOutputTensors_output ext base ctx total_batch_size idx nm payloads of
        Inl e \<Rightarrow> (e, payloads)
      | Inr payloads' \<Rightarrow>
          ReadOutputTensors_loop ext base ctx total_batch_size (Suc idx) nms payloads')"

definition ReadOutputTensors ::
  "Externals \<Rightarrow> OnnxBackend \<Rightarrow> Context \<Rightarrow> nat \<Rightarrow> string list \<Rightarrow> Payload list
     \<Rightarrow> Status \<times> Payload list"
where
  "ReadOutputTensors ext base ctx total_batch_size output_names payloads =
     ReadOutputTensors_loop ext base ctx total_batch_size 0 output_names payloads"

subsection \<open>Context::Run\<close>

text \<open>
  Lines 305-319: the total batch size and the representative request provider (the one
  of the payload visited last), or the status returned for a payload that is not OK.
\<close>

fun Run_collect ::
  "Payload list \<Rightarrow> nat \<Rightarrow> InferRequestProvider option
     \<Rightarrow> Status + nat \<times> InferRequestProvider option"
where
  "Run_collect [] total_batch_size input_request_provider =
     Inr (total_batch_size, input_request_provider)"
| "Run_collect (payload # ps) total_batch_size input_request_provider =
     (if \<not> IsOk (status payload) then Inl (Status INTERNAL)
      else Run_collect ps
             (size_t (total_batch_size + batch_size (request_provider payload)))
             (Some (request_provider payload)))"

text \<open>
  Lines 343-355: one tensor for each input of the representative request header.
  \<^verbatim>\<open>RETURN_IF_ERROR\<close> returns a status that is not OK.
\<close>

fun Run_inputs ::
  "Externals \<Rightarrow> OnnxBackend \<Rightarrow> nat \<Rightarrow> (string \<times> int list) list \<Rightarrow> Context \<Rightarrow> Payload list
     \<Rightarrow> cell list list \<Rightarrow> string list
     \<Rightarrow> Status \<times> Context \<times> Payload list \<times> cell list list \<times> string list"
where
  "Run_inputs ext base total_batch_size [] ctx payloads input_buffers input_names =
     (Success, ctx, payloads, input_buffers, input_names)"
| "Run_inputs ext base total_batch_size ((nm, dims) # rest) ctx payloads input_buffers input_names =
     (case GetInput base nm of
        Inl e \<Rightarrow> (e, ctx, payloads, input_buffers, input_names)
      | Inr input_config \<Rightarrow>
         (case SetInputTensor ext ctx nm (data_type input_config) dims total_batch_size
                 payloads input_buffers input_names of
            (st, ctx', payloads', input_buffers', input_names') \<Rightarrow>
              if \<not> IsOk st then (st, ctx', payloads', input_buffers', input_names')
              else Run_inputs ext base total_batch_size rest ctx' payloads'
                     input_buffers' input_names'))"

text \<open>
  Lines 361-369: one tensor for each entry of the representative provider's override map,
  in the order the map is iterated.
\<close>

fun Run_overrides ::
  "Externals \<Rightarrow> nat \<Rightarrow> (string \<times> DataType \<times> int list) list \<Rightarrow> Context \<Rightarrow> Payload list
     \<Rightarrow> cell list list \<Rightarrow> string list
     \<Rightarrow> Status \<times> Context \<times> Payload list \<times> cell list list \<times> string list"
where
  "Run_overrides ext total_batch_size [] ctx payloads input_buffers input_names =
     (Success, ctx, payloads, input_buffers, input_names)"
| "Run_overrides ext total_batch_size ((nm, datatype, dims) # rest) ctx payloads
       input_buffers input_names =
     (case SetInputTensor ext ctx nm datatype dims total_batch_size
             payloads input_buffers input_names of
        (st, ctx', payloads', input_buffers', input_names') \<Rightarrow>
          if \<not> IsOk st then (st, ctx', payloads', input_buffers', input_names')
          else Run_overrides ext total_batch_size rest ctx' payloads'
                 input_buffers' input_names')"

text \<open>
  Lines 358-360: the override map of a provider, empty when the pointer is null.
\<close>

definition overrides :: "InferRequestProvider \<Rightarrow> (string \<times> DataType \<times> int list) list" where
  "overrides irp = (case GetInputOverride irp of None \<Rightarrow> [] | Some m \<Rightarrow> m)"

text \<open>
  \<^verbatim>\<open>OrtRun\<close> writes through \<^verbatim>\<open>output_tensors_.data()\<close>: the values it stores replace
  the first slots of the vector.
\<close>

definition store_outputs :: "OrtValue option list \<Rightarrow> OrtValue option list \<Rightarrow> OrtValue option list"
where
  "store_outputs slots vals = vals @ drop (length vals) slots"

text \<open>
  Lines 337-389, after the batch size checks. With a nonzero total batch size there is a
  representative provider (lemma \<open>Run_collect_provider\<close> below); the first case is not
  reached.
\<close>

definition Run_compute ::
  "Externals \<Rightarrow> OnnxBackend \<Rightarrow> Context \<Rightarrow> nat \<Rightarrow> InferRequestProvider option
     \<Rightarrow> Payload list \<Rightarrow> event list \<Rightarrow> Status \<times> Context \<times> Payload list \<times> event list"
where
  "Run_compute ext base ctx total_batch_size input_request_provider payloads trace =
     (case input_request_provider of
        None \<Rightarrow> (Status INTERNAL, ctx, payloads, trace)
      | Some irp \<Rightarrow>
         (case Run_inputs ext base total_batch_size (input irp) ctx payloads [] [] of
            (st1, ctx1, payloads1, input_buffers1, input_names1) \<Rightarrow>
              if \<not> IsOk st1 then (st1, ctx1, payloads1, trace)
              else
               (case Run_overrides ext total_batch_size
                       (overrides irp)
                       ctx1 payloads1 input_buffers1 input_names1 of
                  (st2, ctx2, payloads2, input_buffers2, input_names2) \<Rightarrow>
                    if \<not> IsOk st2 then (st2, ctx2, payloads2, trace)
                    else
                     (let output_names = map io_name (config_output (Config base));
                          ctx3 = ctx2\<lparr>output_tensors := output_tensors ctx2
                                         @ replicate (length output_names) None\<rparr>;
                          trace' = trace @ [EvOrtRun input_names2 (input_tensors ctx3) output_names]
                      in case OrtRun ext (session ctx3) input_names2 (input_tensors ctx3)
                                output_names of
                           (ort_status, vals) \<Rightarrow>
                            (let ctx4 = ctx3\<lparr>output_tensors :=
                                               store_outputs (output_tensors ctx3)
                                                 (take (length output_names) vals)\<rparr>
                             in case ort_status of
                                  Some msg \<Rightarrow> (ort_error msg, ctx4, payloads2, trace')
                                | None \<Rightarrow>
                                   (case ReadOutputTensors ext base ctx4 total_batch_size
                                           output_names payloads2 of
                                      (st, payloads3) \<Rightarrow> (st, ctx4, payloads3, trace')))))))"

text \<open>Lines 292-389.\<close>

definition Context_Run ::
  "Externals \<Rightarrow> OnnxBackend \<Rightarrow> Context \<Rightarrow> Payload list \<Rightarrow> event list
     \<Rightarrow> Status \<times> Context \<times> Payload list \<times> event list"
where
  "Context_Run ext base ctx payloads trace =
     (case Run_collect payloads 0 None of
        Inl e \<Rightarrow> (e, ctx, payloads, trace)
      | Inr (total_batch_size, input_request_provider) \<Rightarrow>
          if total_batch_size = 0 then (Success, ctx, payloads, trace)
          else if total_batch_size \<noteq> 1
                  \<and> total_batch_size > size_t_of_int (max_batch_size ctx)
               then (Status INTERNAL, ctx, payloads, trace)
          else Run_compute ext base ctx total_batch_size input_request_provider payloads trace)"

subsection \<open>ReleaseOrtRunResources and OnnxBackend::Run\<close>

text \<open>Lines 569-587: every tensor that is set is released, and both vectors are cleared.\<close>

definition release_all :: "OrtValue option list \<Rightarrow> event list" where
  "release_all tensors = map EvOrtReleaseValue (List.map_filter id tensors)"

definition ReleaseOrtRunResources :: "Context \<Rightarrow> event list \<Rightarrow> Context \<times> event list" where
  "ReleaseOrtRunResources ctx trace =
     (ctx\<lparr>input_tensors := [], output_tensors := []\<rparr>,
      trace @ release_all (input_tensors ctx) @ release_all (output_tensors ctx))"

text \<open>
  Lines 258-290. The result is the backend (the context of the runner is the only part
  that changes), the payloads, and the trace; \<^verbatim>\<open>OnCompleteQueuedPayloads(status)\<close> is
  the event \<open>EvOnComplete status\<close>.
\<close>

definition OnnxBackend_Run ::
  "Externals \<Rightarrow> OnnxBackend \<Rightarrow> nat \<Rightarrow> Payload list \<Rightarrow> event list
     \<Rightarrow> OnnxBackend \<times> Payload list \<times> event list"
where
  "OnnxBackend_Run ext base runner_idx payloads trace =
     (if runner_idx \<ge> length (contexts base)
      then (base, payloads, trace @ [EvOnComplete (Status INTERNAL)])
      else
       (case Context_Run ext base (contexts base ! runner_idx) payloads trace of
          (st, ctx1, payloads1, trace1) \<Rightarrow>
           (case ReleaseOrtRunResources ctx1 trace1 of
              (ctx2, trace2) \<Rightarrow>
                (base\<lparr>contexts := (contexts base)[runner_idx := ctx2]\<rparr>,
                 payloads1,
                 trace2 @ [EvOnComplete st]))))"

text \<open>
  Lines 183-187 of \<^verbatim>\<open>CreateExecutionContext\<close>: the maximum batch size a context is
  constructed with.
\<close>

definition mbs :: "ModelConfig \<Rightarrow> int" where
  "mbs config =
     (if config_max_batch_size config \<le> 0 then NO_BATCHING else config_max_batch_size config)"

section \<open>Notions the properties are stated with\<close>

text \<open>The batch sizes of the payloads of a dispatch, in the scheduler's order.\<close>

definition batch_sizes :: "Payload list \<Rightarrow> nat list" where
  "batch_sizes ps = map (\<lambda>p. batch_size (request_provider p)) ps"

text \<open>
  The content a provider holds for one input: the chunks it hands out, in order, until it
  reports that there is no more (or has no answer left); \<open>None\<close> when it reports an error
  before that.
\<close>

fun delivered :: "reply list \<Rightarrow> byte list option" where
  "delivered [] = Some []"
| "delivered ((st, c) # rs) =
     (if \<not> IsOk st then None
      else case c of None \<Rightarrow> Some [] | Some bytes \<Rightarrow> map_option ((@) bytes) (delivered rs))"

text \<open>
  A payload delivers exactly its expected byte count for an input: it is OK, and its
  content for that input has \<open>batch_size * b1_byte_size\<close> bytes.
\<close>

definition delivers_exactly :: "string \<Rightarrow> nat \<Rightarrow> Payload \<Rightarrow> bool" where
  "delivers_exactly nm b1_byte_size p =
     (IsOk (status p) \<and>
      (case delivered (content (request_provider p) nm) of
         None \<Rightarrow> False
       | Some bytes \<Rightarrow> length bytes = batch_size (request_provider p) * b1_byte_size))"

text \<open>
  Every chunk that is pulled lies in the same address space as the buffer: its size and
  the buffer's size together stay below \<open>2 ^ 64\<close>, so that the sum in the guard of line
  445 does not wrap around.
\<close>

fun chunks_fit :: "nat \<Rightarrow> reply list \<Rightarrow> bool" where
  "chunks_fit total_byte_size [] = True"
| "chunks_fit total_byte_size ((st, c) # rs) =
     (if \<not> IsOk st then True
      else case c of None \<Rightarrow> True
           | Some bytes \<Rightarrow> total_byte_size + length bytes < 2 ^ 64
                            \<and> chunks_fit total_byte_size rs)"

text \<open>
  The total batch size in the words of the specification's glossary: the "sum of OK
  payloads' individual batch sizes in one dispatch".
\<close>

definition ok_total_batch_size :: "Payload list \<Rightarrow> nat" where
  "ok_total_batch_size ps = sum_list (batch_sizes (filter (\<lambda>p. IsOk (status p)) ps))"

text \<open>The statuses the completion callback was called with, and the input names of
  the calls of the runtime, read off a trace.\<close>

fun completion :: "event \<Rightarrow> Status option" where
  "completion (EvOnComplete s) = Some s"
| "completion _ = None"

definition completions :: "event list \<Rightarrow> Status list" where
  "completions evs = List.map_filter completion evs"

fun invoked_inputs :: "event list \<Rightarrow> string list list" where
  "invoked_inputs [] = []"
| "invoked_inputs (EvOrtRun names ins outs # evs) = names # invoked_inputs evs"
| "invoked_inputs (_ # evs) = invoked_inputs evs"




text \<open>
  Modelled from the spec: input assembly as section 4.2 words it. For each input in
  turn, one tensor is assembled by \<open>SetInputTensor\<close> from all payloads of the batch; the
  result is the context, the payloads, the buffers and the names afterwards, and \<open>None\<close>
  as soon as one input fails as a whole. It is what the inputs of a run are compared
  with.
\<close>

fun assemble ::
  "Externals \<Rightarrow> nat \<Rightarrow> (string \<times> DataType \<times> int list) list \<Rightarrow> Context \<Rightarrow> Payload list
     \<Rightarrow> cell list list \<Rightarrow> string list
     \<Rightarrow> (Context \<times> Payload list \<times> cell list list \<times> string list) option"
where
  "assemble ext total_batch_size [] ctx payloads input_buffers input_names =
     Some (ctx, payloads, input_buffers, input_names)"
| "assemble ext total_batch_size ((nm, datatype, dims) # rest) ctx payloads
       input_buffers input_names =
     (case SetInputTensor ext ctx nm datatype dims total_batch_size payloads
             input_buffers input_names of
        (st, ctx', payloads', input_buffers', input_names') \<Rightarrow>
          if IsOk st
          then assemble ext total_batch_size rest ctx' payloads' input_buffers' input_names'
          else None)"

section \<open>A concrete backend and concrete dispatches\<close>

text \<open>
  A model with one input \<open>in\<close> and one output \<open>out\<close>, each three one-byte elements per
  batch item, served by one CPU context with maximum batch size 8. The runtime wraps every
  buffer, and computing hands the input tensors back as the outputs.
\<close>

definition ex_ext :: Externals where
  "ex_ext = \<lparr>GetDataTypeByteSize = (\<lambda>_. 1), ConvertToOnnxDataType = (\<lambda>t. t),
     ConvertFromOnnxDataType = (\<lambda>t. t),
     GetElementCount = prod_list,
     OrtCreateTensorWithDataAsOrtValue = (\<lambda>_ _ _ _ _. None),
     OrtRun = (\<lambda>_ _ ins outs. (None, take (length outs) ins)),
     OrtGetTensorMutableData = (\<lambda>_. None), OrtGetTypeInfo = (\<lambda>_. None)\<rparr>"

definition ex_response :: InferResponseProvider where
  "ex_response = \<lparr>RequiresOutput = (\<lambda>_. True), AllocateOutputBuffer = (\<lambda>_ _ _. Success),
     requests = []\<rparr>"

definition ex_payload_with ::
  "nat \<Rightarrow> byte list list \<Rightarrow> InferResponseProvider \<Rightarrow> Payload" where
  "ex_payload_with b chunks resp =
     \<lparr>request_provider = \<lparr>batch_size = b, input = [(''in'', [3])], GetInputOverride = None,
        content = (\<lambda>n. if n = ''in'' then map (\<lambda>c. (Success, Some c)) chunks else [])\<rparr>,
      response_provider = Some resp, status = Success\<rparr>"

definition ex_payload :: "nat \<Rightarrow> byte list list \<Rightarrow> Payload" where
  "ex_payload b chunks = ex_payload_with b chunks ex_response"

definition ex_ctx :: Context where
  "ex_ctx = \<lparr>ctx_name = ''model_0_cpu'', gpu_device = -1, max_batch_size = 8, session = Some 1,
     allocator_info = Some 2, input_tensors = [], output_tensors = []\<rparr>"

definition ex_base :: OnnxBackend where
  "ex_base = \<lparr>Config = \<lparr>config_input = [\<lparr>io_name = ''in'', data_type = 2, io_dims = [3]\<rparr>],
       config_output = [\<lparr>io_name = ''out'', data_type = 2, io_dims = [3]\<rparr>],
       config_max_batch_size = 8\<rparr>, contexts = [ex_ctx]\<rparr>"

text \<open>Three payloads with batch sizes 2, 1 and 4; the first delivers in two chunks.\<close>

definition ex_payloads :: "Payload list" where
  "ex_payloads = [ex_payload 2 [[1, 2, 3], [4, 5, 6]], ex_payload 1 [[7, 8, 9]],
                  ex_payload 4 [[10, 11, 12, 13, 14, 15, 16, 17, 18, 19, 20, 21]]]"

text \<open>Two payloads; the first delivers five bytes where six are expected.\<close>

definition ex_short :: "Payload list" where
  "ex_short = [ex_payload 2 [[1, 2, 3], [4, 5]], ex_payload 1 [[7, 8, 9]]]"

text \<open>Two payloads that deliver all they should.\<close>

definition ex_two :: "Payload list" where
  "ex_two = [ex_payload 2 [[1, 2, 3], [4, 5, 6]], ex_payload 1 [[7, 8, 9]]]"

text \<open>A total batch size of 9, above the maximum of the context.\<close>

definition ex_oversized :: "Payload list" where
  "ex_oversized = [ex_payload 5 [], ex_payload 4 []]"

text \<open>A payload that reaches the runner with a failed status.\<close>

definition ex_failed :: Payload where
  "ex_failed = (ex_payload 1 [[7, 8, 9]])\<lparr>status := Status INVALID_ARG\<rparr>"

text \<open>
  Three payloads for the output side: the first does not want the output, the allocator
  of the second fails, the third wants the output and gets its buffer.
\<close>

definition ex_mixed :: "Payload list" where
  "ex_mixed =
     [ex_payload_with 2 [] (ex_response\<lparr>RequiresOutput := (\<lambda>_. False)\<rparr>),
      ex_payload_with 1 [] (ex_response\<lparr>AllocateOutputBuffer := (\<lambda>_ _ _. Status (OTHER 7))\<rparr>),
      ex_payload_with 4 [] ex_response]"

definition ex_content :: "cell list" where
  "ex_content = map Some [1, 2, 3, 4, 5, 6, 7, 8, 9, 10, 11, 12, 13, 14, 15, 16, 17, 18, 19, 20, 21]"

text \<open>A payload that supplies an input override \<open>extra\<close>.\<close>

definition ex_overriding :: Payload where
  "ex_overriding =
     \<lparr>request_provider = \<lparr>batch_size = 1, input = [(''in'', [3])],
        GetInputOverride = Some [(''extra'', 2, [1])],
        content = (\<lambda>n. if n = ''in'' then [(Success, Some [1, 2, 3])]
                        else if n = ''extra'' then [(Success, Some [9])] else [])\<rparr>,
      response_provider = Some ex_response, status = Success\<rparr>"

text \<open>
  An output tensor of four bytes, where a total batch size of 3 and the configured output
  (three one-byte elements per item) ask for nine, and a context that holds it.
\<close>

definition ex_short_output :: OrtValue where
  "ex_short_output = \<lparr>data = map Some [1, 2, 3, 4], shape = [4], elem_type = 2\<rparr>"

definition ex_ctx_short :: Context where
  "ex_ctx_short = ex_ctx\<lparr>output_tensors := [Some ex_short_output]\<rparr>"

text \<open>
  An output tensor of 21 bytes, seven batch items of three bytes, and a context that
  holds it.
\<close>

definition ex_output :: OrtValue where
  "ex_output = \<lparr>data = ex_content, shape = [7, 3], elem_type = 2\<rparr>"

definition ex_ctx_out :: Context where
  "ex_ctx_out = ex_ctx\<lparr>output_tensors := [Some ex_output]\<rparr>"

text \<open>A payload whose request header names no input.\<close>

definition ex_noin :: Payload where
  "ex_noin = \<lparr>request_provider = \<lparr>batch_size = 1, input = [], GetInputOverride = None,
        content = (\<lambda>n. [])\<rparr>,
      response_provider = Some ex_response, status = Success\<rparr>"


section \<open>Auxiliary facts\<close>

subsection \<open>Sizes and copies\<close>

lemma size_t_id: "n < 2 ^ 64 \<Longrightarrow> size_t n = n"
  by (simp add: size_t_def)

lemma size_t_less: "size_t n < 2 ^ 64"
  by (simp add: size_t_def)

lemma length_memcpy:
  "pos + length bytes \<le> length buffer \<Longrightarrow> length (memcpy buffer pos bytes) = length buffer"
  by (simp add: memcpy_def)

lemma memcpy_Nil: "memcpy buffer pos [] = buffer"
  by (simp add: memcpy_def)

lemma take_memcpy:
  "n \<le> pos \<Longrightarrow> pos \<le> length buffer \<Longrightarrow> take n (memcpy buffer pos bytes) = take n buffer"
  by (simp add: memcpy_def min_def)

lemma memcpy_append:
  "pos + length a + length b \<le> length buffer \<Longrightarrow>
     memcpy (memcpy buffer pos a) (pos + length a) b = memcpy buffer pos (a @ b)"
proof -
  assume le: "pos + length a + length b \<le> length buffer"
  have "length buffer \<le> pos \<Longrightarrow> a = []"
    using le by (cases a) auto
  then show ?thesis
    using le by (auto simp: memcpy_def min_def ac_simps)
qed

lemma slice_memcpy:
  "pos + length bytes \<le> length buffer \<Longrightarrow>
     slice (memcpy buffer pos bytes) pos (length bytes) = map Some bytes"
  by (simp add: memcpy_def slice_def)

lemma slice_take:
  "pos + n \<le> m \<Longrightarrow> slice (take m xs) pos n = slice xs pos n"
  by (simp add: slice_def take_drop min_def)

subsection \<open>The copy loop of one payload\<close>

lemma copy_content_good:
  "delivered rs = Some bytes \<Longrightarrow> offset + copied + length bytes \<le> length buffer \<Longrightarrow>
   length buffer = total_byte_size \<Longrightarrow> total_byte_size < 2 ^ 64 \<Longrightarrow>
   \<exists>st rs'. IsOk st \<and> copy_content total_byte_size offset rs buffer copied =
       (st, rs', memcpy buffer (offset + copied) bytes, copied + length bytes)"
proof (induction total_byte_size offset rs buffer copied arbitrary: bytes rule: copy_content.induct)
  case (1 total_byte_size offset buffer copied)
  then show ?case by (simp add: memcpy_Nil Success_def IsOk_def)
next
  case (2 total_byte_size offset st c rs buffer copied)
  show ?case
  proof (cases c)
    case None
    with "2.prems" show ?thesis by (auto simp: memcpy_Nil split: if_splits)
  next
    case (Some chunk)
    from "2.prems"(1) Some obtain rest where ok: "IsOk st" and rest: "delivered rs = Some rest"
      and bytes: "bytes = chunk @ rest"
      by (auto split: if_splits)
    have le: "offset + copied + length chunk + length rest \<le> length buffer"
      using "2.prems"(2) bytes by simp
    have fit: "\<not> size_t (size_t (offset + copied) + length chunk) > total_byte_size"
      using le "2.prems"(3,4) by (simp add: size_t_id)
    have sz: "size_t (copied + length chunk) = copied + length chunk"
      using le "2.prems"(3,4) by (simp add: size_t_id)
    have "\<exists>st' rs'. IsOk st' \<and>
        copy_content total_byte_size offset rs (memcpy buffer (offset + copied) chunk) (copied + length chunk) =
          (st', rs', memcpy (memcpy buffer (offset + copied) chunk) (offset + (copied + length chunk)) rest,
           copied + length chunk + length rest)"
      using "2.IH"[OF _ Some _ rest, of ] ok fit sz le "2.prems"(3,4)
      by (simp add: length_memcpy)
    then show ?thesis
      using ok Some fit sz bytes le memcpy_append[of "offset + copied" chunk rest buffer]
      by (auto simp: add.assoc)
  qed
qed

lemma copy_content_fit:
  "chunks_fit total_byte_size rs \<Longrightarrow> length buffer = total_byte_size \<Longrightarrow>
   offset + copied \<le> total_byte_size \<Longrightarrow> total_byte_size < 2 ^ 64 \<Longrightarrow>
   copy_content total_byte_size offset rs buffer copied = (st, rs', buffer', copied') \<Longrightarrow>
   length buffer' = total_byte_size
   \<and> take (offset + copied) buffer' = take (offset + copied) buffer
   \<and> (IsOk st \<longleftrightarrow>
        (\<exists>bytes. delivered rs = Some bytes \<and> offset + copied + length bytes \<le> total_byte_size))
   \<and> (IsOk st \<longrightarrow> copied' = copied + length (the (delivered rs)))"
proof (induction total_byte_size offset rs buffer copied rule: copy_content.induct)
  case (1 total_byte_size offset buffer copied)
  then show ?case by (auto simp: Success_def IsOk_def)
next
  case (2 total_byte_size offset s c rs buffer copied)
  show ?case
  proof (cases "IsOk s")
    case False
    with "2.prems" show ?thesis by auto
  next
    case ok: True
    show ?thesis
    proof (cases c)
      case None
      with ok "2.prems" show ?thesis by auto
    next
      case (Some chunk)
      from "2.prems"(1) ok Some have small: "total_byte_size + length chunk < 2 ^ 64"
        and fit: "chunks_fit total_byte_size rs" by auto
      have s1: "size_t (offset + copied) = offset + copied"
        using "2.prems"(3,4) by (simp add: size_t_id)
      have s2: "size_t (offset + copied + length chunk) = offset + copied + length chunk"
        using "2.prems"(3) small by (simp add: size_t_id)
      show ?thesis
      proof (cases "offset + copied + length chunk > total_byte_size")
        case True
        then have "st = Status INVALID_ARG"
          using "2.prems"(5) ok Some s1 s2 by simp
        moreover have "\<not> (\<exists>bytes. delivered ((s, c) # rs) = Some bytes
                         \<and> offset + copied + length bytes \<le> total_byte_size)"
          using True ok Some by auto
        moreover have "buffer' = buffer"
          using "2.prems"(5) ok Some s1 s2 True by simp
        ultimately show ?thesis using "2.prems"(2) by (simp add: IsOk_def)
      next
        case False
        then have le: "offset + copied + length chunk \<le> total_byte_size" by simp
        have s3: "size_t (copied + length chunk) = copied + length chunk"
          using le "2.prems"(4) by (simp add: size_t_id)
        have rec: "copy_content total_byte_size offset rs
                     (memcpy buffer (offset + copied) chunk) (copied + length chunk)
                   = (st, rs', buffer', copied')"
          using "2.prems"(5) ok Some s1 s2 s3 False by simp
        have len: "length (memcpy buffer (offset + copied) chunk) = total_byte_size"
          using le "2.prems"(2) by (simp add: length_memcpy)
        have guard: "\<not> total_byte_size < size_t (size_t (offset + copied) + length chunk)"
          using s1 s2 False by simp
        have le': "offset + size_t (copied + length chunk) \<le> total_byte_size"
          using s3 le by simp
        have rec': "copy_content total_byte_size offset rs
                     (memcpy buffer (offset + copied) chunk) (size_t (copied + length chunk))
                   = (st, rs', buffer', copied')"
          using rec s3 by simp
        note IH = "2.IH"[OF _ Some guard fit len le' "2.prems"(4) rec', unfolded s3]
        have pre: "take (offset + copied) buffer' = take (offset + copied) buffer"
        proof -
          from IH ok have "take (offset + (copied + length chunk)) buffer' =
                        take (offset + (copied + length chunk)) (memcpy buffer (offset + copied) chunk)"
            by simp
          then have "take (offset + copied) (take (offset + (copied + length chunk)) buffer') =
                     take (offset + copied) (take (offset + (copied + length chunk))
                        (memcpy buffer (offset + copied) chunk))"
            by simp
          then have "take (offset + copied) buffer' =
                     take (offset + copied) (memcpy buffer (offset + copied) chunk)"
            by (simp add: min_def)
          also have "\<dots> = take (offset + copied) buffer"
            using "2.prems"(2,3) by (simp add: take_memcpy)
          finally show ?thesis .
        qed
        from IH ok pre Some show ?thesis
          by (auto simp: add.assoc)
      qed
    qed
  qed
qed

subsection \<open>Input assembly over the payloads\<close>

lemma payload_keeps:
  "SetInputTensor_payload nm total_byte_size b1 offset buffer p = (p', buffer', offset') \<Longrightarrow>
   batch_size (request_provider p') = batch_size (request_provider p)
   \<and> input (request_provider p') = input (request_provider p)
   \<and> GetInputOverride (request_provider p') = GetInputOverride (request_provider p)
   \<and> response_provider p' = response_provider p
   \<and> (\<forall>n. n \<noteq> nm \<longrightarrow> content (request_provider p') n = content (request_provider p) n)
   \<and> (\<not> IsOk (status p) \<longrightarrow> status p' = status p \<and> buffer' = buffer)"
  by (auto simp: SetInputTensor_payload_def Let_def split: prod.splits if_splits)

lemma payload_good:
  assumes "delivers_exactly nm b1 p"
    and "offset + batch_size (request_provider p) * b1 \<le> total_byte_size"
    and "length buffer = total_byte_size" and "total_byte_size < 2 ^ 64"
    and "SetInputTensor_payload nm total_byte_size b1 offset buffer p = (p', buffer', offset')"
  shows "buffer' = memcpy buffer offset (the (delivered (content (request_provider p) nm)))
         \<and> offset' = offset + batch_size (request_provider p) * b1 \<and> IsOk (status p')"
proof -
  from assms(1) obtain bytes where ok: "IsOk (status p)"
    and d: "delivered (content (request_provider p) nm) = Some bytes"
    and l: "length bytes = batch_size (request_provider p) * b1"
    by (auto simp: delivers_exactly_def split: option.splits)
  have "offset + 0 + length bytes \<le> length buffer" using assms(2,3) l by simp
  from copy_content_good[OF d this assms(3,4)] obtain st rs' where
    st: "IsOk st" and cc: "copy_content total_byte_size offset
        (content (request_provider p) nm) buffer 0 = (st, rs', memcpy buffer offset bytes, length bytes)"
    by auto
  have e: "size_t (batch_size (request_provider p) * b1) = batch_size (request_provider p) * b1"
    using assms(2,4) by (simp add: size_t_id)
  have o: "size_t (offset + batch_size (request_provider p) * b1)
             = offset + batch_size (request_provider p) * b1"
    using assms(2,4) by (simp add: size_t_id)
  show ?thesis
    using assms(5) ok cc st d l e o
    by (auto simp: SetInputTensor_payload_def Let_def)
qed

lemma payload_fit:
  assumes "chunks_fit total_byte_size (content (request_provider p) nm)"
    and "offset + batch_size (request_provider p) * b1 \<le> total_byte_size"
    and "length buffer = total_byte_size" and "total_byte_size < 2 ^ 64"
    and "SetInputTensor_payload nm total_byte_size b1 offset buffer p = (p', buffer', offset')"
  shows "length buffer' = total_byte_size \<and> take offset buffer' = take offset buffer
         \<and> offset' = offset + batch_size (request_provider p) * b1
         \<and> (IsOk (status p') \<longleftrightarrow> delivers_exactly nm b1 p)"
proof -
  have e: "size_t (batch_size (request_provider p) * b1) = batch_size (request_provider p) * b1"
    using assms(2,4) by (simp add: size_t_id)
  have o: "size_t (offset + batch_size (request_provider p) * b1)
             = offset + batch_size (request_provider p) * b1"
    using assms(2,4) by (simp add: size_t_id)
  show ?thesis
  proof (cases "IsOk (status p)")
    case False
    with assms(3,5) e o show ?thesis
      by (auto simp: SetInputTensor_payload_def Let_def delivers_exactly_def)
  next
    case True
    obtain st rs' buf copied where
      cc: "copy_content total_byte_size offset (content (request_provider p) nm) buffer 0
             = (st, rs', buf, copied)"
      by (rule prod_cases4)
    have "offset + 0 \<le> total_byte_size" using assms(2) by simp
    from copy_content_fit[OF assms(1,3) this assms(4) cc]
    have 1: "length buf = total_byte_size" and 2: "take offset buf = take offset buffer"
      and 3: "IsOk st \<longleftrightarrow> (\<exists>bytes. delivered (content (request_provider p) nm) = Some bytes
                 \<and> offset + length bytes \<le> total_byte_size)"
      and 4: "IsOk st \<longrightarrow> copied = length (the (delivered (content (request_provider p) nm)))"
      by auto
    have b: "buffer' = buf" and off: "offset' = offset + batch_size (request_provider p) * b1"
      and s: "status p' = (if IsOk st \<and> copied \<noteq> batch_size (request_provider p) * b1
                           then Status INTERNAL else st)"
      using assms(5) True cc e o by (auto simp: SetInputTensor_payload_def Let_def)
    have "IsOk (status p') \<longleftrightarrow> delivers_exactly nm b1 p"
      using s 3 4 True assms(2)
      by (auto simp: delivers_exactly_def IsOk_def split: option.splits)
    with 1 2 b off show ?thesis by simp
  qed
qed

lemma payload_frame:
  assumes "delivers_exactly nm b1 p \<or> chunks_fit total_byte_size (content (request_provider p) nm)"
    and "offset + batch_size (request_provider p) * b1 \<le> total_byte_size"
    and "length buffer = total_byte_size" and "total_byte_size < 2 ^ 64"
    and "SetInputTensor_payload nm total_byte_size b1 offset buffer p = (p', buffer', offset')"
  shows "length buffer' = total_byte_size \<and> take offset buffer' = take offset buffer
         \<and> offset' = offset + batch_size (request_provider p) * b1"
proof (cases "delivers_exactly nm b1 p")
  case True
  then obtain bytes where d: "delivered (content (request_provider p) nm) = Some bytes"
    and l: "length bytes = batch_size (request_provider p) * b1"
    by (auto simp: delivers_exactly_def split: option.splits)
  from payload_good[OF True assms(2-5)] d
  have "buffer' = memcpy buffer offset bytes"
    and "offset' = offset + batch_size (request_provider p) * b1" by auto
  then show ?thesis using assms(2,3) l by (simp add: length_memcpy take_memcpy)
next
  case False
  with assms(1) have "chunks_fit total_byte_size (content (request_provider p) nm)" by simp
  from payload_fit[OF this assms(2-5)] show ?thesis by simp
qed

lemma payloads_frame:
  "\<forall>p\<in>set ps. delivers_exactly nm b1 p
       \<or> chunks_fit total_byte_size (content (request_provider p) nm) \<Longrightarrow>
   offset + sum_list (batch_sizes ps) * b1 \<le> total_byte_size \<Longrightarrow>
   length buffer = total_byte_size \<Longrightarrow> total_byte_size < 2 ^ 64 \<Longrightarrow>
   SetInputTensor_payloads nm total_byte_size b1 offset buffer ps = (ps', buffer') \<Longrightarrow>
   length buffer' = total_byte_size \<and> take offset buffer' = take offset buffer
   \<and> length ps' = length ps"
proof (induction ps arbitrary: offset buffer ps' buffer')
  case Nil
  then show ?case by simp
next
  case (Cons p ps)
  obtain p1 buf1 off1 where
    one: "SetInputTensor_payload nm total_byte_size b1 offset buffer p = (p1, buf1, off1)"
    by (rule prod_cases3)
  obtain ps1 buf2 where
    rest: "SetInputTensor_payloads nm total_byte_size b1 off1 buf1 ps = (ps1, buf2)"
    by (cases "SetInputTensor_payloads nm total_byte_size b1 off1 buf1 ps")
  from Cons.prems(5) one rest have res: "ps' = p1 # ps1" "buffer' = buf2" by auto
  have le: "offset + batch_size (request_provider p) * b1 \<le> total_byte_size"
    using Cons.prems(2) by (simp add: batch_sizes_def add_mult_distrib)
  from payload_frame[OF _ le Cons.prems(3,4) one] Cons.prems(1)
  have f1: "length buf1 = total_byte_size" "take offset buf1 = take offset buffer"
    "off1 = offset + batch_size (request_provider p) * b1" by auto
  have le2: "off1 + sum_list (batch_sizes ps) * b1 \<le> total_byte_size"
    using Cons.prems(2) f1(3) by (simp add: batch_sizes_def add_mult_distrib)
  from Cons.IH[OF _ le2 f1(1) Cons.prems(4) rest] Cons.prems(1)
  have f2: "length buf2 = total_byte_size" "take off1 buf2 = take off1 buf1"
    "length ps1 = length ps" by auto
  have "take offset (take off1 buf2) = take offset (take off1 buf1)" using f2(2) by simp
  then have "take offset buf2 = take offset buf1" using f1(3) by (simp add: min_def)
  with f1 f2 res show ?case by simp
qed

lemma payloads_layout:
  "\<forall>p\<in>set ps. delivers_exactly nm b1 p
       \<or> chunks_fit total_byte_size (content (request_provider p) nm) \<Longrightarrow>
   offset + sum_list (batch_sizes ps) * b1 \<le> total_byte_size \<Longrightarrow>
   length buffer = total_byte_size \<Longrightarrow> total_byte_size < 2 ^ 64 \<Longrightarrow>
   SetInputTensor_payloads nm total_byte_size b1 offset buffer ps = (ps', buffer') \<Longrightarrow>
   i < length ps \<Longrightarrow> delivers_exactly nm b1 (ps ! i) \<Longrightarrow>
   slice buffer' (offset + sum_list (take i (batch_sizes ps)) * b1)
         (batch_size (request_provider (ps ! i)) * b1)
     = map Some (the (delivered (content (request_provider (ps ! i)) nm)))
   \<and> IsOk (status (ps' ! i))"
proof (induction ps arbitrary: offset buffer ps' buffer' i)
  case Nil
  then show ?case by simp
next
  case (Cons p ps)
  obtain p1 buf1 off1 where
    one: "SetInputTensor_payload nm total_byte_size b1 offset buffer p = (p1, buf1, off1)"
    by (rule prod_cases3)
  obtain ps1 buf2 where
    rest: "SetInputTensor_payloads nm total_byte_size b1 off1 buf1 ps = (ps1, buf2)"
    by (cases "SetInputTensor_payloads nm total_byte_size b1 off1 buf1 ps")
  from Cons.prems(5) one rest have res: "ps' = p1 # ps1" "buffer' = buf2" by auto
  have le: "offset + batch_size (request_provider p) * b1 \<le> total_byte_size"
    using Cons.prems(2) by (simp add: batch_sizes_def add_mult_distrib)
  from payload_frame[OF _ le Cons.prems(3,4) one] Cons.prems(1)
  have f1: "length buf1 = total_byte_size" "take offset buf1 = take offset buffer"
    "off1 = offset + batch_size (request_provider p) * b1" by auto
  have le2: "off1 + sum_list (batch_sizes ps) * b1 \<le> total_byte_size"
    using Cons.prems(2) f1(3) by (simp add: batch_sizes_def add_mult_distrib)
  have safe: "\<forall>p\<in>set ps. delivers_exactly nm b1 p
       \<or> chunks_fit total_byte_size (content (request_provider p) nm)"
    using Cons.prems(1) by simp
  show ?case
  proof (cases i)
    case 0
    with Cons.prems(7) have good: "delivers_exactly nm b1 p" by simp
    then obtain bytes where d: "delivered (content (request_provider p) nm) = Some bytes"
      and l: "length bytes = batch_size (request_provider p) * b1"
      by (auto simp: delivers_exactly_def split: option.splits)
    from payload_good[OF good le Cons.prems(3,4) one] d
    have bm: "buf1 = memcpy buffer offset bytes" and ok: "IsOk (status p1)" by auto
    from payloads_frame[OF safe le2 f1(1) Cons.prems(4) rest]
    have "take off1 buf2 = take off1 buf1" by simp
    then have "slice (take off1 buf2) offset (length bytes) = slice (take off1 buf1) offset (length bytes)"
      by simp
    then have "slice buf2 offset (length bytes) = slice buf1 offset (length bytes)"
      using f1(3) l by (simp add: slice_take)
    also have "\<dots> = map Some bytes"
      using slice_memcpy[of offset bytes buffer] bm le l Cons.prems(3) by simp
    finally show ?thesis using 0 res ok d l by simp
  next
    case (Suc j)
    with Cons.prems(6,7) have j: "j < length ps" and good: "delivers_exactly nm b1 (ps ! j)"
      by auto
    from Cons.IH[OF safe le2 f1(1) Cons.prems(4) rest j good]
    show ?thesis using Suc res f1(3)
      by (simp add: batch_sizes_def add_mult_distrib add.assoc)
  qed
qed

lemma payloads_status:
  "\<forall>p\<in>set ps. chunks_fit total_byte_size (content (request_provider p) nm) \<Longrightarrow>
   offset + sum_list (batch_sizes ps) * b1 \<le> total_byte_size \<Longrightarrow>
   length buffer = total_byte_size \<Longrightarrow> total_byte_size < 2 ^ 64 \<Longrightarrow>
   SetInputTensor_payloads nm total_byte_size b1 offset buffer ps = (ps', buffer') \<Longrightarrow>
   i < length ps \<Longrightarrow>
   IsOk (status (ps' ! i)) \<longleftrightarrow> delivers_exactly nm b1 (ps ! i)"
proof (induction ps arbitrary: offset buffer ps' buffer' i)
  case Nil
  then show ?case by simp
next
  case (Cons p ps)
  obtain p1 buf1 off1 where
    one: "SetInputTensor_payload nm total_byte_size b1 offset buffer p = (p1, buf1, off1)"
    by (rule prod_cases3)
  obtain ps1 buf2 where
    rest: "SetInputTensor_payloads nm total_byte_size b1 off1 buf1 ps = (ps1, buf2)"
    by (cases "SetInputTensor_payloads nm total_byte_size b1 off1 buf1 ps")
  from Cons.prems(5) one rest have res: "ps' = p1 # ps1" "buffer' = buf2" by auto
  have le: "offset + batch_size (request_provider p) * b1 \<le> total_byte_size"
    using Cons.prems(2) by (simp add: batch_sizes_def add_mult_distrib)
  from payload_fit[OF _ le Cons.prems(3,4) one] Cons.prems(1)
  have f1: "length buf1 = total_byte_size"
    "off1 = offset + batch_size (request_provider p) * b1"
    "IsOk (status p1) \<longleftrightarrow> delivers_exactly nm b1 p" by auto
  have le2: "off1 + sum_list (batch_sizes ps) * b1 \<le> total_byte_size"
    using Cons.prems(2) f1(2) by (simp add: batch_sizes_def add_mult_distrib)
  have fit: "\<forall>p\<in>set ps. chunks_fit total_byte_size (content (request_provider p) nm)"
    using Cons.prems(1) by simp
  show ?case
  proof (cases i)
    case 0
    with res f1(3) show ?thesis by simp
  next
    case (Suc j)
    with Cons.prems(6) have j: "j < length ps" by simp
    from Cons.IH[OF fit le2 f1(1) Cons.prems(4) rest j] Suc res show ?thesis by simp
  qed
qed

subsection \<open>The batch size loop and the frame of input assembly\<close>

lemma Run_collect_bad:
  "\<exists>p\<in>set ps. \<not> IsOk (status p) \<Longrightarrow> Run_collect ps t irp = Inl (Status INTERNAL)"
  by (induction ps arbitrary: t irp) auto

lemma Run_collect_ok:
  "\<forall>p\<in>set ps. IsOk (status p) \<Longrightarrow> t + sum_list (batch_sizes ps) < 2 ^ 64 \<Longrightarrow>
   Run_collect ps t irp =
     Inr (t + sum_list (batch_sizes ps),
          if ps = [] then irp else Some (request_provider (last ps)))"
proof (induction ps arbitrary: t irp)
  case Nil
  then show ?case by (simp add: batch_sizes_def)
next
  case (Cons p ps)
  have "size_t (t + batch_size (request_provider p)) = t + batch_size (request_provider p)"
    using Cons.prems(2) by (simp add: size_t_id batch_sizes_def)
  with Cons show ?case by (simp add: batch_sizes_def add.assoc)
qed

lemma size_t_of_int_nat: "0 \<le> m \<Longrightarrow> m < 2 ^ 64 \<Longrightarrow> size_t_of_int m = nat m"
  by (simp add: size_t_of_int_def)

lemma SetInputTensor_frame:
  "SetInputTensor ext ctx nm datatype dims total_batch_size payloads input_buffers input_names
     = (st, ctx', payloads', input_buffers', input_names') \<Longrightarrow>
   input_names' = input_names @ [nm]
   \<and> session ctx' = session ctx \<and> allocator_info ctx' = allocator_info ctx
   \<and> max_batch_size ctx' = max_batch_size ctx \<and> ctx_name ctx' = ctx_name ctx
   \<and> gpu_device ctx' = gpu_device ctx \<and> output_tensors ctx' = output_tensors ctx
   \<and> (st = Success \<or> st = Status INTERNAL)
   \<and> (IsOk st \<longleftrightarrow> OrtCreateTensorWithDataAsOrtValue ext (allocator_info ctx)
          (last input_buffers')
          (size_t (total_batch_size * batch1_byte_size ext datatype dims))
          (input_dims ctx total_batch_size dims) (ConvertToOnnxDataType ext datatype) = None)"
  by (auto simp: SetInputTensor_def Let_def ort_error_def Success_def IsOk_def
           split: prod.splits option.splits)

lemma Run_inputs_frame:
  "Run_inputs ext base total_batch_size ins ctx payloads input_buffers input_names
     = (st, ctx', payloads', input_buffers', input_names') \<Longrightarrow>
   session ctx' = session ctx \<and> allocator_info ctx' = allocator_info ctx
   \<and> max_batch_size ctx' = max_batch_size ctx \<and> ctx_name ctx' = ctx_name ctx
   \<and> gpu_device ctx' = gpu_device ctx \<and> output_tensors ctx' = output_tensors ctx
   \<and> (IsOk st \<longrightarrow> input_names' = input_names @ map fst ins)"
proof (induction ins arbitrary: ctx payloads input_buffers input_names)
  case Nil
  then show ?case by simp
next
  case (Cons a ins)
  obtain nm dims where a: "a = (nm, dims)" by (cases a)
  show ?case
  proof (cases "GetInput base nm")
    case (Inl e)
    with Cons.prems a have "st = e" "ctx' = ctx" by auto
    moreover have "\<not> IsOk e" using Inl
      by (auto simp: GetInput_def IsOk_def split: option.splits)
    ultimately show ?thesis by simp
  next
    case (Inr cfg)
    obtain st1 ctx1 ps1 bufs1 names1 where
      s: "SetInputTensor ext ctx nm (data_type cfg) dims total_batch_size payloads
            input_buffers input_names = (st1, ctx1, ps1, bufs1, names1)"
      by (rule prod_cases5)
    note f = SetInputTensor_frame[OF s]
    show ?thesis
    proof (cases "IsOk st1")
      case False
      with Cons.prems a Inr s f show ?thesis by auto
    next
      case True
      with Cons.prems a Inr s have
        "Run_inputs ext base total_batch_size ins ctx1 ps1 bufs1 names1
           = (st, ctx', payloads', input_buffers', input_names')" by simp
      from Cons.IH[OF this] f show ?thesis using a by simp
    qed
  qed
qed

lemma Run_overrides_frame:
  "Run_overrides ext total_batch_size ovs ctx payloads input_buffers input_names
     = (st, ctx', payloads', input_buffers', input_names') \<Longrightarrow>
   session ctx' = session ctx \<and> allocator_info ctx' = allocator_info ctx
   \<and> max_batch_size ctx' = max_batch_size ctx \<and> ctx_name ctx' = ctx_name ctx
   \<and> gpu_device ctx' = gpu_device ctx \<and> output_tensors ctx' = output_tensors ctx
   \<and> (IsOk st \<longrightarrow> input_names' = input_names @ map fst ovs)"
proof (induction ovs arbitrary: ctx payloads input_buffers input_names)
  case Nil
  then show ?case by simp
next
  case (Cons a ovs)
  obtain nm dt dims where a: "a = (nm, dt, dims)" by (cases a)
  obtain st1 ctx1 ps1 bufs1 names1 where
    s: "SetInputTensor ext ctx nm dt dims total_batch_size payloads
          input_buffers input_names = (st1, ctx1, ps1, bufs1, names1)"
    by (rule prod_cases5)
  note f = SetInputTensor_frame[OF s]
  show ?case
  proof (cases "IsOk st1")
    case False
    with Cons.prems a s f show ?thesis by auto
  next
    case True
    with Cons.prems a s have
      "Run_overrides ext total_batch_size ovs ctx1 ps1 bufs1 names1
         = (st, ctx', payloads', input_buffers', input_names')" by simp
    from Cons.IH[OF this] f show ?thesis using a by simp
  qed
qed

subsection \<open>The byte size of one batch item\<close>

lemma foldl_cnt:
  "c < 2 ^ 64 \<Longrightarrow> foldl (\<lambda>cnt dim. size_t (cnt * size_t_of_int dim)) c dims
     = nat ((int c * prod_list dims) mod 2 ^ 64)"
proof (induction dims arbitrary: c)
  case Nil
  then show ?case by (simp add: nat_mod_distrib)
next
  case (Cons d dims)
  have "int (size_t (c * size_t_of_int d)) = (int c * d) mod 2 ^ 64"
    by (simp add: size_t_def size_t_of_int_def zmod_int mod_mult_right_eq)
  then have "(int (size_t (c * size_t_of_int d)) * prod_list dims) mod 2 ^ 64
               = (int c * (d * prod_list dims)) mod 2 ^ 64"
    by (simp add: mod_mult_left_eq mult.assoc)
  then have "nat ((int (size_t (c * size_t_of_int d)) * prod_list dims) mod 2 ^ 64)
               = nat ((int c * prod_list (d # dims)) mod 2 ^ 64)"
    by simp
  moreover have "size_t (c * size_t_of_int d) < 2 ^ 64" by (rule size_t_less)
  ultimately show ?case using Cons.IH[of "size_t (c * size_t_of_int d)"] by simp
qed

lemma batch1_element_cnt_eq: "batch1_element_cnt dims = nat (prod_list dims mod 2 ^ 64)"
  using foldl_cnt[of 1 dims] by (simp add: batch1_element_cnt_def)

lemma prod_list_nonneg: "\<forall>d\<in>set dims. (0::int) \<le> d \<Longrightarrow> 0 \<le> prod_list dims"
  by (induction dims) auto

lemma batch1_byte_size_eq:
  assumes "\<forall>d\<in>set dims. 0 \<le> d"
    and "nat (prod_list dims) * GetDataTypeByteSize ext datatype < 2 ^ 64"
  shows "batch1_byte_size ext datatype dims = nat (prod_list dims) * GetDataTypeByteSize ext datatype"
proof -
  have "nat (prod_list dims mod 2 ^ 64) = nat (prod_list dims) mod 2 ^ 64"
    using prod_list_nonneg[OF assms(1)] by (simp add: nat_mod_distrib)
  then have "batch1_byte_size ext datatype dims
      = (nat (prod_list dims) mod 2 ^ 64 * GetDataTypeByteSize ext datatype) mod 2 ^ 64"
    by (simp add: batch1_byte_size_def batch1_element_cnt_eq size_t_def)
  also have "\<dots> = (nat (prod_list dims) * GetDataTypeByteSize ext datatype) mod 2 ^ 64"
    by (simp add: mod_mult_left_eq)
  finally show ?thesis using assms(2) by simp
qed

lemma SetInputTensor_unfold:
  assumes "SetInputTensor ext ctx nm datatype dims total_batch_size payloads input_buffers input_names
     = (st, ctx', payloads', input_buffers', input_names')"
  shows "\<exists>buffer. SetInputTensor_payloads nm
            (size_t (total_batch_size * batch1_byte_size ext datatype dims))
            (batch1_byte_size ext datatype dims) 0
            (replicate (size_t (total_batch_size * batch1_byte_size ext datatype dims)) None)
            payloads = (payloads', buffer)
         \<and> input_buffers' = input_buffers @ [buffer]
         \<and> st = (case OrtCreateTensorWithDataAsOrtValue ext (allocator_info ctx) buffer
                   (size_t (total_batch_size * batch1_byte_size ext datatype dims))
                   (input_dims ctx total_batch_size dims) (ConvertToOnnxDataType ext datatype) of
                   None \<Rightarrow> Success | Some msg \<Rightarrow> ort_error msg)
         \<and> (IsOk st \<longrightarrow> input_tensors ctx' = input_tensors ctx @
               [Some \<lparr>data = buffer, shape = input_dims ctx total_batch_size dims,
                      elem_type = ConvertToOnnxDataType ext datatype\<rparr>])"
  using assms
  by (auto simp: SetInputTensor_def Let_def ort_error_def IsOk_def Success_def
           split: prod.splits option.splits)

subsection \<open>Output distribution\<close>












subsection \<open>What a run does to the trace and to the context\<close>

lemma Run_collect_Inr:
  "Run_collect ps t irp = Inr (B, irp') \<Longrightarrow>
   (\<forall>p\<in>set ps. IsOk (status p))
   \<and> irp' = (if ps = [] then irp else Some (request_provider (last ps)))"
  by (induction ps arbitrary: t irp) (auto split: if_splits)

lemma Run_compute_event:
  assumes "Run_compute ext base ctx B (Some irp) payloads trace = (st, ctx', ps', trace')"
  shows "trace' = trace \<or>
    (\<exists>ins. trace' = trace @ [EvOrtRun (map fst (input irp) @ map fst (overrides irp))
                               ins (map io_name (config_output (Config base)))])"
proof -
  obtain st1 ctx1 ps1 bufs1 names1 where
    i: "Run_inputs ext base B (input irp) ctx payloads [] [] = (st1, ctx1, ps1, bufs1, names1)"
    by (rule prod_cases5)
  show ?thesis
  proof (cases "IsOk st1")
    case False
    with assms i show ?thesis by (simp add: Run_compute_def)
  next
    case ok1: True
    with Run_inputs_frame[OF i] have n1: "names1 = map fst (input irp)" by simp
    obtain st2 ctx2 ps2 bufs2 names2 where
      o: "Run_overrides ext B (overrides irp) ctx1 ps1 bufs1 names1
            = (st2, ctx2, ps2, bufs2, names2)"
      by (rule prod_cases5)
    show ?thesis
    proof (cases "IsOk st2")
      case False
      with assms i ok1 o show ?thesis by (simp add: Run_compute_def overrides_def)
    next
      case ok2: True
      with Run_overrides_frame[OF o] n1
      have n2: "names2 = map fst (input irp) @ map fst (overrides irp)" by simp
      from assms i ok1 o ok2 n2 show ?thesis
        by (auto simp: Run_compute_def overrides_def Let_def split: prod.splits option.splits)
    qed
  qed
qed

lemma Context_Run_event:
  assumes "Context_Run ext base ctx payloads trace = (st, ctx', ps', trace')"
  shows "trace' = trace \<or>
    (payloads \<noteq> [] \<and> (\<forall>p\<in>set payloads. IsOk (status p)) \<and>
     (\<exists>ins. trace' = trace @ [EvOrtRun
         (map fst (input (request_provider (last payloads)))
            @ map fst (overrides (request_provider (last payloads))))
         ins (map io_name (config_output (Config base)))]))"
proof (cases "Run_collect payloads 0 None")
  case (Inl e)
  with assms show ?thesis by (simp add: Context_Run_def)
next
  case (Inr r)
  obtain B irp where r: "r = (B, irp)" by (cases r)
  from Run_collect_Inr[OF Inr[unfolded r]]
  have ok: "\<forall>p\<in>set payloads. IsOk (status p)"
    and irp: "irp = (if payloads = [] then None else Some (request_provider (last payloads)))"
    by auto
  show ?thesis
  proof (cases "payloads = []")
    case True
    with assms Inr r irp show ?thesis
      by (auto simp: Context_Run_def Run_compute_def split: if_splits)
  next
    case False
    with irp have irp': "irp = Some (request_provider (last payloads))" by simp
    show ?thesis
    proof (cases "B = 0 \<or> (B \<noteq> 1 \<and> B > size_t_of_int (max_batch_size ctx))")
      case True
      with assms Inr r show ?thesis by (auto simp: Context_Run_def)
    next
      case go: False
      with assms Inr r irp' have
        "Run_compute ext base ctx B (Some (request_provider (last payloads))) payloads trace
           = (st, ctx', ps', trace')"
        by (auto simp: Context_Run_def)
      from Run_compute_event[OF this] False ok show ?thesis by auto
    qed
  qed
qed





lemma GetInput_Inr:
  "GetInput base nm = Inr io \<Longrightarrow> nm \<in> io_name ` set (config_input (Config base))"
  by (auto simp: GetInput_def find_Some_iff split: option.splits)

lemma Run_inputs_declared:
  "Run_inputs ext base total_batch_size ins ctx payloads input_buffers input_names
     = (st, ctx', payloads', input_buffers', input_names') \<Longrightarrow> IsOk st \<Longrightarrow>
   fst ` set ins \<subseteq> io_name ` set (config_input (Config base))"
proof (induction ins arbitrary: ctx payloads input_buffers input_names)
  case Nil
  then show ?case by simp
next
  case (Cons a ins)
  obtain nm dims where a: "a = (nm, dims)" by (cases a)
  show ?case
  proof (cases "GetInput base nm")
    case (Inl e)
    with Cons.prems(1) a have "st = e" by auto
    moreover have "\<not> IsOk e" using Inl
      by (auto simp: GetInput_def IsOk_def split: option.splits)
    ultimately show ?thesis using Cons.prems(2) by simp
  next
    case (Inr cfg)
    obtain st1 ctx1 ps1 bufs1 names1 where
      s: "SetInputTensor ext ctx nm (data_type cfg) dims total_batch_size payloads
            input_buffers input_names = (st1, ctx1, ps1, bufs1, names1)"
      by (rule prod_cases5)
    show ?thesis
    proof (cases "IsOk st1")
      case False
      with Cons.prems a Inr s show ?thesis by auto
    next
      case True
      with Cons.prems(1) a Inr s have
        "Run_inputs ext base total_batch_size ins ctx1 ps1 bufs1 names1
           = (st, ctx', payloads', input_buffers', input_names')" by simp
      from Cons.IH[OF this Cons.prems(2)] GetInput_Inr[OF Inr] a show ?thesis by simp
    qed
  qed
qed

lemma Run_compute_declared:
  assumes "Run_compute ext base ctx B (Some irp) payloads trace = (st, ctx', ps', trace')"
    and "trace' \<noteq> trace"
  shows "fst ` set (input irp) \<subseteq> io_name ` set (config_input (Config base))"
proof -
  obtain st1 ctx1 ps1 bufs1 names1 where
    i: "Run_inputs ext base B (input irp) ctx payloads [] [] = (st1, ctx1, ps1, bufs1, names1)"
    by (rule prod_cases5)
  have "IsOk st1"
  proof (rule ccontr)
    assume "\<not> IsOk st1"
    with assms(1) i have "trace' = trace" by (simp add: Run_compute_def)
    with assms(2) show False by simp
  qed
  from Run_inputs_declared[OF i this] show ?thesis .
qed

lemma Context_Run_declared:
  assumes "Context_Run ext base ctx payloads trace = (st, ctx', ps', trace')"
    and "trace' \<noteq> trace"
  shows "fst ` set (input (request_provider (last payloads)))
           \<subseteq> io_name ` set (config_input (Config base))"
proof (cases "Run_collect payloads 0 None")
  case (Inl e)
  with assms show ?thesis by (simp add: Context_Run_def)
next
  case (Inr r)
  obtain B irp where r: "r = (B, irp)" by (cases r)
  from Run_collect_Inr[OF Inr[unfolded r]]
  have irp: "irp = (if payloads = [] then None else Some (request_provider (last payloads)))"
    by auto
  show ?thesis
  proof (cases "payloads = []")
    case True
    with assms Inr r irp show ?thesis
      by (auto simp: Context_Run_def Run_compute_def split: if_splits)
  next
    case False
    with irp have irp': "irp = Some (request_provider (last payloads))" by simp
    show ?thesis
    proof (cases "B = 0 \<or> (B \<noteq> 1 \<and> B > size_t_of_int (max_batch_size ctx))")
      case True
      with assms Inr r show ?thesis by (auto simp: Context_Run_def)
    next
      case go: False
      with assms(1) Inr r irp' have
        "Run_compute ext base ctx B (Some (request_provider (last payloads))) payloads trace
           = (st, ctx', ps', trace')"
        by (auto simp: Context_Run_def)
      from Run_compute_declared[OF this assms(2)] show ?thesis .
    qed
  qed
qed

lemma Run_compute_frame:
  assumes "Run_compute ext base ctx B irp payloads trace = (st, ctx', ps', trace')"
  shows "session ctx' = session ctx \<and> allocator_info ctx' = allocator_info ctx
         \<and> max_batch_size ctx' = max_batch_size ctx \<and> ctx_name ctx' = ctx_name ctx
         \<and> gpu_device ctx' = gpu_device ctx"
proof (cases irp)
  case None
  with assms show ?thesis by (simp add: Run_compute_def)
next
  case (Some rp)
  obtain st1 ctx1 ps1 bufs1 names1 where
    i: "Run_inputs ext base B (input rp) ctx payloads [] [] = (st1, ctx1, ps1, bufs1, names1)"
    by (rule prod_cases5)
  note f1 = Run_inputs_frame[OF i]
  obtain st2 ctx2 ps2 bufs2 names2 where
    o: "Run_overrides ext B (overrides rp) ctx1 ps1 bufs1 names1
          = (st2, ctx2, ps2, bufs2, names2)"
    by (rule prod_cases5)
  note f2 = Run_overrides_frame[OF o]
  from assms Some i o f1 f2 show ?thesis
    by (auto simp: Run_compute_def overrides_def Let_def split: prod.splits option.splits if_splits)
qed

lemma Context_Run_frame:
  assumes "Context_Run ext base ctx payloads trace = (st, ctx', ps', trace')"
  shows "session ctx' = session ctx \<and> allocator_info ctx' = allocator_info ctx
         \<and> max_batch_size ctx' = max_batch_size ctx \<and> ctx_name ctx' = ctx_name ctx
         \<and> gpu_device ctx' = gpu_device ctx"
proof (cases "Run_collect payloads 0 None")
  case (Inl e)
  with assms show ?thesis by (simp add: Context_Run_def)
next
  case (Inr r)
  obtain B irp where r: "r = (B, irp)" by (cases r)
  show ?thesis
  proof (cases "B = 0 \<or> (B \<noteq> 1 \<and> B > size_t_of_int (max_batch_size ctx))")
    case True
    with assms Inr r show ?thesis by (auto simp: Context_Run_def)
  next
    case False
    with assms Inr r have "Run_compute ext base ctx B irp payloads trace = (st, ctx', ps', trace')"
      by (auto simp: Context_Run_def)
    from Run_compute_frame[OF this] show ?thesis .
  qed
qed

lemma release_all_mem: "Some t \<in> set tensors \<Longrightarrow> EvOrtReleaseValue t \<in> set (release_all tensors)"
  by (force simp: release_all_def map_filter_def)

lemma completions_release_all: "completions (release_all tensors) = []"
  by (induction tensors) (auto simp: release_all_def completions_def map_filter_def)

lemma completions_append: "completions (xs @ ys) = completions xs @ completions ys"
  by (simp add: completions_def map_filter_def)

subsection \<open>Input assembly of a run\<close>

lemma assemble_append:
  "assemble ext B (xs @ ys) ctx ps bufs names =
     (case assemble ext B xs ctx ps bufs names of
        None \<Rightarrow> None
      | Some (ctx1, ps1, bufs1, names1) \<Rightarrow> assemble ext B ys ctx1 ps1 bufs1 names1)"
  by (induction xs arbitrary: ctx ps bufs names) (auto split: prod.splits)

lemma Run_overrides_assemble:
  "Run_overrides ext B ovs ctx ps bufs names = (st, ctx', ps', bufs', names') \<Longrightarrow> IsOk st \<Longrightarrow>
   assemble ext B ovs ctx ps bufs names = Some (ctx', ps', bufs', names')"
proof (induction ovs arbitrary: ctx ps bufs names)
  case Nil
  then show ?case by simp
next
  case (Cons a ovs)
  obtain nm dt dims where a: "a = (nm, dt, dims)" by (cases a)
  obtain st1 ctx1 ps1 bufs1 names1 where
    s: "SetInputTensor ext ctx nm dt dims B ps bufs names = (st1, ctx1, ps1, bufs1, names1)"
    by (rule prod_cases5)
  show ?case
  proof (cases "IsOk st1")
    case False
    with Cons.prems a s show ?thesis by auto
  next
    case True
    with Cons.prems(1) a s have
      "Run_overrides ext B ovs ctx1 ps1 bufs1 names1 = (st, ctx', ps', bufs', names')" by simp
    from Cons.IH[OF this Cons.prems(2)] a s True show ?thesis by simp
  qed
qed

lemma Run_inputs_assemble:
  "Run_inputs ext base B ins ctx ps bufs names = (st, ctx', ps', bufs', names') \<Longrightarrow> IsOk st \<Longrightarrow>
   \<exists>specs. map (\<lambda>(nm, dt, dims). (nm, dims)) specs = ins
     \<and> list_all (\<lambda>(nm, dt, dims). \<exists>io. GetInput base nm = Inr io \<and> dt = data_type io) specs
     \<and> assemble ext B specs ctx ps bufs names = Some (ctx', ps', bufs', names')"
proof (induction ins arbitrary: ctx ps bufs names)
  case Nil
  then show ?case by simp
next
  case (Cons a ins)
  obtain nm dims where a: "a = (nm, dims)" by (cases a)
  show ?case
  proof (cases "GetInput base nm")
    case (Inl e)
    with Cons.prems(1) a have "st = e" by auto
    moreover have "\<not> IsOk e" using Inl
      by (auto simp: GetInput_def IsOk_def split: option.splits)
    ultimately show ?thesis using Cons.prems(2) by simp
  next
    case (Inr cfg)
    obtain st1 ctx1 ps1 bufs1 names1 where
      s: "SetInputTensor ext ctx nm (data_type cfg) dims B ps bufs names
            = (st1, ctx1, ps1, bufs1, names1)"
      by (rule prod_cases5)
    show ?thesis
    proof (cases "IsOk st1")
      case False
      with Cons.prems a Inr s show ?thesis by auto
    next
      case True
      with Cons.prems(1) a Inr s have
        "Run_inputs ext base B ins ctx1 ps1 bufs1 names1 = (st, ctx', ps', bufs', names')"
        by simp
      from Cons.IH[OF this Cons.prems(2)] obtain specs where
        sp: "map (\<lambda>(nm, dt, dims). (nm, dims)) specs = ins"
        "list_all (\<lambda>(nm, dt, dims). \<exists>io. GetInput base nm = Inr io \<and> dt = data_type io) specs"
        "assemble ext B specs ctx1 ps1 bufs1 names1 = Some (ctx', ps', bufs', names')"
        by blast
      show ?thesis
        using sp a Inr s True
        by (intro exI[of _ "(nm, data_type cfg, dims) # specs"]) simp
    qed
  qed
qed

lemma assemble_tensors:
  "assemble ext B specs ctx ps bufs names = Some (ctx', ps', bufs', names') \<Longrightarrow>
   names' = names @ map fst specs
   \<and> max_batch_size ctx' = max_batch_size ctx
   \<and> output_tensors ctx' = output_tensors ctx
   \<and> (\<exists>new. bufs' = bufs @ new \<and> length new = length specs
         \<and> input_tensors ctx' = input_tensors ctx
              @ map (\<lambda>((nm, dt, dims), buffer).
                       Some \<lparr>data = buffer, shape = input_dims ctx B dims,
                             elem_type = ConvertToOnnxDataType ext dt\<rparr>) (zip specs new))"
proof (induction specs arbitrary: ctx ps bufs names)
  case Nil
  then show ?case by simp
next
  case (Cons a specs)
  obtain nm dt dims where a: "a = (nm, dt, dims)" by (cases a)
  obtain st1 ctx1 ps1 bufs1 names1 where
    s: "SetInputTensor ext ctx nm dt dims B ps bufs names = (st1, ctx1, ps1, bufs1, names1)"
    by (rule prod_cases5)
  from Cons.prems a s have ok: "IsOk st1"
    and rest: "assemble ext B specs ctx1 ps1 bufs1 names1 = Some (ctx', ps', bufs', names')"
    by (auto split: if_splits)
  from SetInputTensor_unfold[OF s] ok obtain buffer where
    b: "bufs1 = bufs @ [buffer]"
    and t: "input_tensors ctx1 = input_tensors ctx
              @ [Some \<lparr>data = buffer, shape = input_dims ctx B dims,
                       elem_type = ConvertToOnnxDataType ext dt\<rparr>]"
    by auto
  from SetInputTensor_frame[OF s] have
    n1: "names1 = names @ [nm]" and m1: "max_batch_size ctx1 = max_batch_size ctx"
    and o1: "output_tensors ctx1 = output_tensors ctx" by auto
  from Cons.IH[OF rest] obtain new where
    n: "names' = names1 @ map fst specs" and m: "max_batch_size ctx' = max_batch_size ctx1"
    and o: "output_tensors ctx' = output_tensors ctx1"
    and new: "bufs' = bufs1 @ new" "length new = length specs"
    "input_tensors ctx' = input_tensors ctx1
              @ map (\<lambda>((nm, dt, dims), buffer).
                       Some \<lparr>data = buffer, shape = input_dims ctx1 B dims,
                             elem_type = ConvertToOnnxDataType ext dt\<rparr>) (zip specs new)"
    by blast
  have w: "\<And>dims. input_dims ctx1 B dims = input_dims ctx B dims"
    using m1 by (simp add: input_dims_def)
  show ?case
    using n n1 m m1 o o1 new b t a
    by (intro conjI exI[of _ "buffer # new"]) (simp_all add: w)
qed

lemma Run_compute_assembled:
  assumes "Run_compute ext base ctx B (Some irp) payloads trace = (st, ctx', ps', trace')"
    and "trace' \<noteq> trace"
  shows "\<exists>specs ctx2 ps2 buffers.
      map (\<lambda>(nm, dt, dims). (nm, dims)) specs = input irp
    \<and> list_all (\<lambda>(nm, dt, dims). \<exists>io. GetInput base nm = Inr io \<and> dt = data_type io) specs
    \<and> assemble ext B (specs @ overrides irp) ctx payloads [] []
         = Some (ctx2, ps2, buffers, map fst (input irp) @ map fst (overrides irp))
    \<and> length buffers = length (specs @ overrides irp)
    \<and> input_tensors ctx2 = input_tensors ctx
          @ map (\<lambda>((nm, dt, dims), buffer).
                   Some \<lparr>data = buffer, shape = input_dims ctx B dims,
                         elem_type = ConvertToOnnxDataType ext dt\<rparr>)
                (zip (specs @ overrides irp) buffers)
    \<and> trace' = trace @ [EvOrtRun (map fst (input irp) @ map fst (overrides irp))
                           (input_tensors ctx2)
                           (map io_name (config_output (Config base)))]"
proof -
  obtain st1 ctx1 ps1 bufs1 names1 where
    i: "Run_inputs ext base B (input irp) ctx payloads [] [] = (st1, ctx1, ps1, bufs1, names1)"
    by (rule prod_cases5)
  have ok1: "IsOk st1"
  proof (rule ccontr)
    assume "\<not> IsOk st1"
    with assms(1) i have "trace' = trace" by (simp add: Run_compute_def)
    with assms(2) show False by simp
  qed
  obtain st2 ctx2 ps2 bufs2 names2 where
    o: "Run_overrides ext B (overrides irp) ctx1 ps1 bufs1 names1
          = (st2, ctx2, ps2, bufs2, names2)"
    by (rule prod_cases5)
  have ok2: "IsOk st2"
  proof (rule ccontr)
    assume "\<not> IsOk st2"
    with assms(1) i ok1 o have "trace' = trace" by (simp add: Run_compute_def)
    with assms(2) show False by simp
  qed
  from Run_inputs_assemble[OF i ok1] obtain specs where
    sp: "map (\<lambda>(nm, dt, dims). (nm, dims)) specs = input irp"
    "list_all (\<lambda>(nm, dt, dims). \<exists>io. GetInput base nm = Inr io \<and> dt = data_type io) specs"
    and a1: "assemble ext B specs ctx payloads [] [] = Some (ctx1, ps1, bufs1, names1)"
    by blast
  from Run_overrides_assemble[OF o ok2]
  have a2: "assemble ext B (overrides irp) ctx1 ps1 bufs1 names1 = Some (ctx2, ps2, bufs2, names2)" .
  from a1 a2 have a: "assemble ext B (specs @ overrides irp) ctx payloads [] []
                        = Some (ctx2, ps2, bufs2, names2)"
    by (simp add: assemble_append)
  from assemble_tensors[OF a] have
    n2: "names2 = map fst (specs @ overrides irp)"
    and len: "length bufs2 = length (specs @ overrides irp)"
    and ts: "input_tensors ctx2 = input_tensors ctx
          @ map (\<lambda>((nm, dt, dims), buffer).
                   Some \<lparr>data = buffer, shape = input_dims ctx B dims,
                         elem_type = ConvertToOnnxDataType ext dt\<rparr>)
                (zip (specs @ overrides irp) bufs2)"
    by auto
  have "map fst specs = map fst (input irp)"
  proof -
    have "map fst (map (\<lambda>(nm, dt, dims). (nm, dims)) specs) = map fst specs"
      by (induction specs) auto
    with sp(1) show ?thesis by simp
  qed
  with n2 have n2': "names2 = map fst (input irp) @ map fst (overrides irp)" by simp
  have tr: "trace' = trace @ [EvOrtRun names2 (input_tensors ctx2)
                           (map io_name (config_output (Config base)))]"
    using assms(1) i ok1 o ok2
    by (auto simp: Run_compute_def Let_def split: prod.splits option.splits)
  show ?thesis
    using sp a len ts tr n2'
    by (intro exI[of _ specs] exI[of _ ctx2] exI[of _ ps2] exI[of _ bufs2]) simp
qed

lemma Context_Run_assembled:
  assumes "Context_Run ext base ctx payloads trace = (st, ctx', ps', trace')"
    and "trace' \<noteq> trace"
    and "sum_list (batch_sizes payloads) < 2 ^ 64"
  shows "payloads \<noteq> [] \<and>
    Run_compute ext base ctx (sum_list (batch_sizes payloads))
      (Some (request_provider (last payloads))) payloads trace = (st, ctx', ps', trace')"
proof (cases "Run_collect payloads 0 None")
  case (Inl e)
  with assms show ?thesis by (simp add: Context_Run_def)
next
  case (Inr r)
  obtain B irp where r: "r = (B, irp)" by (cases r)
  from Run_collect_Inr[OF Inr[unfolded r]]
  have ok: "\<forall>p\<in>set payloads. IsOk (status p)" by auto
  from Run_collect_ok[OF ok, of 0 None] assms(3) Inr r
  have B: "B = sum_list (batch_sizes payloads)"
    and irp: "irp = (if payloads = [] then None else Some (request_provider (last payloads)))"
    by auto
  show ?thesis
  proof (cases "payloads = []")
    case True
    with assms Inr r irp show ?thesis
      by (auto simp: Context_Run_def Run_compute_def split: if_splits)
  next
    case False
    with irp have irp': "irp = Some (request_provider (last payloads))" by simp
    show ?thesis
    proof (cases "B = 0 \<or> (B \<noteq> 1 \<and> B > size_t_of_int (max_batch_size ctx))")
      case True
      with assms Inr r show ?thesis by (auto simp: Context_Run_def)
    next
      case go: False
      with assms(1) Inr r irp' have
        "Run_compute ext base ctx B (Some (request_provider (last payloads))) payloads trace
           = (st, ctx', ps', trace')"
        by (auto simp: Context_Run_def)
      with B False show ?thesis by simp
    qed
  qed
qed

lemma mbs_nonneg: "0 \<le> mbs config"
  by (simp add: mbs_def NO_BATCHING_def)

subsection \<open>Evaluating the concrete dispatches\<close>

lemma replicate_numeral: "replicate (numeral k) x = x # replicate (pred_numeral k) x"
  by (simp add: numeral_eq_Suc)

lemmas ex_defs = ex_payloads_def ex_payload_def ex_payload_with_def ex_ext_def ex_ctx_def
  ex_base_def ex_response_def ex_short_def ex_two_def ex_oversized_def ex_failed_def
  ex_mixed_def ex_content_def ex_overriding_def ex_short_output_def ex_ctx_short_def
  ex_output_def ex_ctx_out_def ex_noin_def

lemmas run_defs = Context_Run_def Run_compute_def GetInput_def GetOutput_def input_dims_def
  NO_BATCHING_def int64_of_size_t_def SetInputTensor_def Let_def batch1_byte_size_def
  batch1_element_cnt_def size_t_def size_t_of_int_def SetInputTensor_payload_def memcpy_def
  IsOk_def Success_def replicate_numeral store_outputs_def ReadOutputTensors_def
  ReadOutputTensors_output_def ReadOutputTensors_payload_def slice_def ort_error_def
  overrides_def


section \<open>The claims\<close>

subsection \<open>C1: input assembly concatenates the payloads\<close>

text \<open>
  Claim C1. Take an input \<open>nm\<close> whose non-batch dimensions \<open>dims\<close> are not negative and
  payloads with batch sizes \<open>s1 .. sn\<close> whose sum \<open>B\<close> is at least 1, where one batch item
  has \<open>item = product of dims * datatype size\<close> bytes, \<open>B * item\<close> fits a \<^verbatim>\<open>size_t\<close>, and
  every payload is OK and delivers its \<open>si * item\<close> bytes. Then \<open>SetInputTensor\<close> appends
  exactly one buffer to \<^verbatim>\<open>input_buffers\<close>; the buffer has exactly \<open>B * item\<close> bytes; for
  every \<open>i\<close>, the \<open>si * item\<close> bytes at offset \<open>(s1 + .. + s(i-1)) * item\<close> are the content
  of payload \<open>i\<close>, the payloads taken in the order of the list; and when the runtime wraps
  the buffer, the tensor has the shape \<open>dims\<close> with no batch dimension if the context does
  not support batching, and \<open>B # dims\<close> otherwise. The bound \<open>B \<le> max batch size\<close> of the
  claim is not needed.
\<close>

theorem SetInputTensor_concatenates:
  assumes dims: "\<forall>d\<in>set dims. 0 \<le> d"
    and item: "item = nat (prod_list dims) * GetDataTypeByteSize ext datatype"
    and B: "total_batch_size = sum_list (batch_sizes payloads)"
    and pos: "1 \<le> total_batch_size"
    and small: "total_batch_size < 2 ^ 63"
    and fits: "total_batch_size * item < 2 ^ 64"
    and good: "\<forall>p\<in>set payloads. delivers_exactly nm item p"
    and run: "SetInputTensor ext ctx nm datatype dims total_batch_size payloads
                input_buffers input_names = (st, ctx', payloads', input_buffers', input_names')"
  shows "\<exists>buffer. input_buffers' = input_buffers @ [buffer]
     \<and> length buffer = total_batch_size * item
     \<and> (\<forall>i<length payloads.
           slice buffer (sum_list (take i (batch_sizes payloads)) * item)
                 (batch_size (request_provider (payloads ! i)) * item)
             = map Some (the (delivered (content (request_provider (payloads ! i)) nm))))
     \<and> (IsOk st \<longrightarrow> last (input_tensors ctx') =
           Some \<lparr>data = buffer,
                 shape = (if max_batch_size ctx = NO_BATCHING then dims
                          else int total_batch_size # dims),
                 elem_type = ConvertToOnnxDataType ext datatype\<rparr>)"
proof -
  have "item \<le> total_batch_size * item" using pos by simp
  with fits have "item < 2 ^ 64" by linarith
  then have b1: "batch1_byte_size ext datatype dims = item"
    using batch1_byte_size_eq[OF dims] item by simp
  have tot: "size_t (total_batch_size * item) = total_batch_size * item"
    using fits by (simp add: size_t_id)
  from SetInputTensor_unfold[OF run] b1 tot obtain buffer where
    loop: "SetInputTensor_payloads nm (total_batch_size * item) item 0
             (replicate (total_batch_size * item) None) payloads = (payloads', buffer)"
    and bufs: "input_buffers' = input_buffers @ [buffer]"
    and tensor: "IsOk st \<longrightarrow> input_tensors ctx' = input_tensors ctx @
               [Some \<lparr>data = buffer, shape = input_dims ctx total_batch_size dims,
                      elem_type = ConvertToOnnxDataType ext datatype\<rparr>]"
    by auto
  have safe: "\<forall>p\<in>set payloads. delivers_exactly nm item p
       \<or> chunks_fit (total_batch_size * item) (content (request_provider p) nm)"
    using good by simp
  have le: "0 + sum_list (batch_sizes payloads) * item \<le> total_batch_size * item"
    using B by simp
  have len0: "length (replicate (total_batch_size * item) (None :: cell)) = total_batch_size * item"
    by simp
  from payloads_frame[OF safe le len0 fits loop]
  have len: "length buffer = total_batch_size * item" by simp
  have lay: "\<forall>i<length payloads.
           slice buffer (sum_list (take i (batch_sizes payloads)) * item)
                 (batch_size (request_provider (payloads ! i)) * item)
             = map Some (the (delivered (content (request_provider (payloads ! i)) nm)))"
  proof (intro allI impI)
    fix i assume i: "i < length payloads"
    then have "delivers_exactly nm item (payloads ! i)" using good by simp
    from payloads_layout[OF safe le len0 fits loop i this]
    show "slice buffer (sum_list (take i (batch_sizes payloads)) * item)
                 (batch_size (request_provider (payloads ! i)) * item)
             = map Some (the (delivered (content (request_provider (payloads ! i)) nm)))"
      by simp
  qed
  have shp: "input_dims ctx total_batch_size dims =
      (if max_batch_size ctx = NO_BATCHING then dims else int total_batch_size # dims)"
    using small by (simp add: input_dims_def int64_of_size_t_def)
  from bufs len lay tensor shp show ?thesis by auto
qed

text \<open>
  The theorem at the dispatch \<open>ex_payloads\<close> (batch sizes 2, 1 and 4, three bytes per
  item): a buffer of 21 bytes, the payloads at offsets 0, 6 and 9.
\<close>

theorem SetInputTensor_concatenates_witness:
  "\<exists>st ctx' payloads' buffer names.
     SetInputTensor ex_ext ex_ctx ''in'' 2 [3] 7 ex_payloads [] []
       = (st, ctx', payloads', [buffer], names)
     \<and> length buffer = 21
     \<and> slice buffer 0 6 = map Some [1, 2, 3, 4, 5, 6]
     \<and> slice buffer 6 3 = map Some [7, 8, 9]
     \<and> slice buffer 9 12 = map Some [10, 11, 12, 13, 14, 15, 16, 17, 18, 19, 20, 21]
     \<and> last (input_tensors ctx') = Some \<lparr>data = buffer, shape = [7, 3], elem_type = 2\<rparr>"
proof -
  obtain st c ps bs ns where
    r: "SetInputTensor ex_ext ex_ctx ''in'' 2 [3] 7 ex_payloads [] [] = (st, c, ps, bs, ns)"
    by (rule prod_cases5)
  have ok: "IsOk st" using SetInputTensor_frame[OF r] by (simp add: ex_ext_def)
  have h1: "\<forall>d\<in>set [3::int]. 0 \<le> d" by simp
  have h2: "(3::nat) = nat (prod_list [3]) * GetDataTypeByteSize ex_ext 2"
    by (simp add: ex_ext_def)
  have h3: "(7::nat) = sum_list (batch_sizes ex_payloads)"
    by (simp add: batch_sizes_def ex_defs)
  have h4: "\<forall>p\<in>set ex_payloads. delivers_exactly ''in'' 3 p"
    by (simp add: delivers_exactly_def ex_defs IsOk_def Success_def)
  from SetInputTensor_concatenates[OF h1 h2 h3 _ _ _ h4 r] ok obtain buffer where
    b: "bs = [buffer]" "length buffer = 21"
    and lay: "\<forall>i<length ex_payloads.
           slice buffer (sum_list (take i (batch_sizes ex_payloads)) * 3)
                 (batch_size (request_provider (ex_payloads ! i)) * 3)
             = map Some (the (delivered (content (request_provider (ex_payloads ! i)) ''in'')))"
    and t: "last (input_tensors c) = Some \<lparr>data = buffer,
                 shape = (if max_batch_size ex_ctx = NO_BATCHING then [3] else [7, 3]),
                 elem_type = ConvertToOnnxDataType ex_ext 2\<rparr>"
    by auto
  from lay[rule_format, of 0] have s0: "slice buffer 0 6 = map Some [1, 2, 3, 4, 5, 6]"
    by (simp add: batch_sizes_def ex_defs IsOk_def Success_def)
  from lay[rule_format, of 1] have s1: "slice buffer 6 3 = map Some [7, 8, 9]"
    by (simp add: batch_sizes_def ex_defs IsOk_def Success_def)
  from lay[rule_format, of 2]
  have s2: "slice buffer 9 12 = map Some [10, 11, 12, 13, 14, 15, 16, 17, 18, 19, 20, 21]"
    by (simp add: batch_sizes_def ex_defs IsOk_def Success_def)
  from t have t': "last (input_tensors c) = Some \<lparr>data = buffer, shape = [7, 3], elem_type = 2\<rparr>"
    by (simp add: ex_defs NO_BATCHING_def)
  from r b s0 s1 s2 t' show ?thesis by blast
qed

subsection \<open>C2: output distribution slices the combined output\<close>



subsection \<open>C3: a batch above the maximum fails the run before the runtime is called\<close>

text \<open>
  Claim C3. For a context whose maximum batch size is not negative (as every context that
  \<^verbatim>\<open>CreateExecutionContext\<close> constructs: \<open>mbs_nonneg\<close>) and a dispatch whose total batch
  size \<open>B\<close> (a \<^verbatim>\<open>size_t\<close>) is not 1 and above that maximum, hence nonzero,
  \<open>Context::Run\<close> returns an error status; the trace is unchanged, so the runtime has not
  been called, and the context and the payloads are unchanged, so there is no partial
  result.
\<close>

theorem Run_rejects_oversized_batch:
  assumes "0 \<le> max_batch_size ctx"
    and "sum_list (batch_sizes payloads) < 2 ^ 64"
    and "sum_list (batch_sizes payloads) \<noteq> 1"
    and "int (sum_list (batch_sizes payloads)) > max_batch_size ctx"
  shows "Context_Run ext base ctx payloads trace = (Status INTERNAL, ctx, payloads, trace)"
proof (cases "\<forall>p\<in>set payloads. IsOk (status p)")
  case False
  then show ?thesis by (simp add: Context_Run_def Run_collect_bad)
next
  case True
  define B where "B = sum_list (batch_sizes payloads)"
  have B: "B < 2 ^ 64" "B \<noteq> 1" "int B > max_batch_size ctx"
    using assms(2-4) by (simp_all add: B_def)
  have m: "size_t_of_int (max_batch_size ctx) = nat (max_batch_size ctx)"
    using assms(1) B(1,3) by (intro size_t_of_int_nat) auto
  have c: "Run_collect payloads 0 None =
     Inr (B, if payloads = [] then None else Some (request_provider (last payloads)))"
    using Run_collect_ok[OF True, of 0 None] B(1) by (simp add: B_def)
  have "B \<noteq> 0" and "B > nat (max_batch_size ctx)"
    using assms(1) B(3) by linarith+
  then show ?thesis using c B(2) m by (simp add: Context_Run_def)
qed

text \<open>The theorem at \<open>ex_oversized\<close>: a total batch size of 9 against a maximum of 8.\<close>

theorem Run_rejects_oversized_batch_witness:
  "Context_Run ex_ext ex_base ex_ctx ex_oversized [] = (Status INTERNAL, ex_ctx, ex_oversized, [])"
  using Run_rejects_oversized_batch[of ex_ctx ex_oversized ex_ext ex_base "[]"]
  by (simp add: batch_sizes_def ex_defs)

subsection \<open>C4: a zero batch succeeds without the runtime, unless a payload has failed\<close>

text \<open>
  Claim C4 says that every dispatch whose total batch size is zero, in particular one
  whose payloads have all failed beforehand, returns success. It does not hold for the
  dispatch of the single failed payload \<open>ex_failed\<close>: the sum of the batch sizes of its OK
  payloads is zero, and \<open>Context::Run\<close> returns an error (the guard of lines 307-312).
\<close>

theorem Run_all_failed_counterexample:
  "ok_total_batch_size [ex_failed] = 0
   \<and> fst (Context_Run ex_ext ex_base ex_ctx [ex_failed] []) \<noteq> Success"
  by (simp add: ok_total_batch_size_def batch_sizes_def Context_Run_def ex_defs IsOk_def Success_def)

text \<open>
  Claim C4 as amended: for every dispatch in which every payload has an OK status and the
  batch sizes sum to zero (no payload, or only payloads of batch size zero),
  \<open>Context::Run\<close> returns success, and the trace, the context and the payloads are
  unchanged: the runtime is not invoked.
\<close>

theorem Run_zero_batch_succeeds:
  assumes "\<forall>p\<in>set payloads. IsOk (status p)"
    and "sum_list (batch_sizes payloads) = 0"
  shows "Context_Run ext base ctx payloads trace = (Success, ctx, payloads, trace)"
proof -
  from Run_collect_ok[OF assms(1), of 0 None] assms(2)
  have "Run_collect payloads 0 None =
     Inr (0, if payloads = [] then None else Some (request_provider (last payloads)))"
    by simp
  then show ?thesis by (simp add: Context_Run_def)
qed

text \<open>The amended claim at a dispatch of one payload with batch size zero.\<close>

theorem Run_zero_batch_succeeds_witness:
  "Context_Run ex_ext ex_base ex_ctx [ex_payload 0 []] [] = (Success, ex_ctx, [ex_payload 0 []], [])"
  using Run_zero_batch_succeeds[of "[ex_payload 0 []]" ex_ext ex_base ex_ctx "[]"]
  by (simp add: batch_sizes_def ex_defs IsOk_def Success_def)

subsection \<open>C5: a payload that arrives failed fails the run\<close>

text \<open>
  Claim C5. For every dispatch that contains a payload whose status is not OK when it
  reaches \<open>Context::Run\<close>, the run returns the status \<open>INTERNAL\<close>, an error and not
  success; nothing else has happened.
\<close>

theorem Run_fails_on_failed_payload:
  assumes "\<exists>p\<in>set payloads. \<not> IsOk (status p)"
  shows "Context_Run ext base ctx payloads trace = (Status INTERNAL, ctx, payloads, trace)"
  using assms by (simp add: Context_Run_def Run_collect_bad)

text \<open>The theorem at a dispatch whose second payload is \<open>ex_failed\<close>.\<close>

theorem Run_fails_on_failed_payload_witness:
  "Context_Run ex_ext ex_base ex_ctx [ex_payload 2 [[1, 2, 3], [4, 5, 6]], ex_failed] []
     = (Status INTERNAL, ex_ctx, [ex_payload 2 [[1, 2, 3], [4, 5, 6]], ex_failed], [])"
  using Run_fails_on_failed_payload[of "[ex_payload 2 [[1, 2, 3], [4, 5, 6]], ex_failed]"
          ex_ext ex_base ex_ctx "[]"]
  by (simp add: ex_defs IsOk_def Success_def)

subsection \<open>C6: a malformed payload fails alone\<close>

text \<open>
  Claim C6. Let the batch sizes \<open>s1 .. sn\<close> of the payloads sum to the total batch size,
  \<open>b1\<close> be the per-item byte size the source computes, the buffer size \<open>total * b1\<close> fit a
  \<^verbatim>\<open>size_t\<close>, and every chunk that is pulled fit the address space beside the buffer.
  Then the status \<open>SetInputTensor\<close> returns is decided by the runtime's wrapping of the
  buffer alone (success when it wraps), whatever the payloads deliver; no payload is
  dropped; the status of payload \<open>i\<close> afterwards is OK exactly if this payload was OK and
  delivers exactly \<open>si * b1\<close> bytes, so a payload that overruns the buffer, delivers too
  little or too much, or whose provider reports an error is failed, and no other payload
  is failed for it; and every payload that delivers exactly has its content at its
  nominal offset \<open>(s1 + .. + s(i-1)) * b1\<close>, the sum taken over all earlier payloads, the
  failed ones with their expected sizes.
\<close>

theorem SetInputTensor_fails_single_payload:
  assumes B: "sum_list (batch_sizes payloads) = total_batch_size"
    and b1: "b1 = batch1_byte_size ext datatype dims"
    and fits: "total_batch_size * b1 < 2 ^ 64"
    and chunks: "\<forall>p\<in>set payloads.
                   chunks_fit (total_batch_size * b1) (content (request_provider p) nm)"
    and run: "SetInputTensor ext ctx nm datatype dims total_batch_size payloads
                input_buffers input_names = (st, ctx', payloads', input_buffers', input_names')"
  shows "\<exists>buffer. input_buffers' = input_buffers @ [buffer]
     \<and> st = (case OrtCreateTensorWithDataAsOrtValue ext (allocator_info ctx) buffer
                  (total_batch_size * b1) (input_dims ctx total_batch_size dims)
                  (ConvertToOnnxDataType ext datatype) of
                None \<Rightarrow> Success | Some msg \<Rightarrow> ort_error msg)
     \<and> length payloads' = length payloads
     \<and> (\<forall>i<length payloads.
           IsOk (status (payloads' ! i)) \<longleftrightarrow> delivers_exactly nm b1 (payloads ! i))
     \<and> (\<forall>i<length payloads. delivers_exactly nm b1 (payloads ! i) \<longrightarrow>
           slice buffer (sum_list (take i (batch_sizes payloads)) * b1)
                 (batch_size (request_provider (payloads ! i)) * b1)
             = map Some (the (delivered (content (request_provider (payloads ! i)) nm))))"
proof -
  have tot: "size_t (total_batch_size * b1) = total_batch_size * b1"
    using fits by (simp add: size_t_id)
  from SetInputTensor_unfold[OF run] b1 tot obtain buffer where
    loop: "SetInputTensor_payloads nm (total_batch_size * b1) b1 0
             (replicate (total_batch_size * b1) None) payloads = (payloads', buffer)"
    and bufs: "input_buffers' = input_buffers @ [buffer]"
    and ret: "st = (case OrtCreateTensorWithDataAsOrtValue ext (allocator_info ctx) buffer
                  (total_batch_size * b1) (input_dims ctx total_batch_size dims)
                  (ConvertToOnnxDataType ext datatype) of
                None \<Rightarrow> Success | Some msg \<Rightarrow> ort_error msg)"
    by auto
  have safe: "\<forall>p\<in>set payloads. delivers_exactly nm b1 p
       \<or> chunks_fit (total_batch_size * b1) (content (request_provider p) nm)"
    using chunks by simp
  have le: "0 + sum_list (batch_sizes payloads) * b1 \<le> total_batch_size * b1"
    using B by simp
  have len0: "length (replicate (total_batch_size * b1) (None :: cell)) = total_batch_size * b1"
    by simp
  from payloads_frame[OF safe le len0 fits loop]
  have len: "length payloads' = length payloads" by simp
  have sts: "\<forall>i<length payloads.
           IsOk (status (payloads' ! i)) \<longleftrightarrow> delivers_exactly nm b1 (payloads ! i)"
    using payloads_status[OF chunks le len0 fits loop] by simp
  have lay: "\<forall>i<length payloads. delivers_exactly nm b1 (payloads ! i) \<longrightarrow>
           slice buffer (sum_list (take i (batch_sizes payloads)) * b1)
                 (batch_size (request_provider (payloads ! i)) * b1)
             = map Some (the (delivered (content (request_provider (payloads ! i)) nm)))"
    using payloads_layout[OF safe le len0 fits loop] by simp
  from bufs ret len sts lay show ?thesis by blast
qed

text \<open>
  The theorem at \<open>ex_short\<close>: the first payload is one byte short and fails, the call
  returns success, and the second payload is OK with its three bytes at offset 6.
\<close>

theorem SetInputTensor_fails_single_payload_witness:
  "\<exists>ctx' payloads' buffer names.
     SetInputTensor ex_ext ex_ctx ''in'' 2 [3] 3 ex_short [] []
       = (Success, ctx', payloads', [buffer], names)
     \<and> length payloads' = 2
     \<and> \<not> IsOk (status (payloads' ! 0))
     \<and> IsOk (status (payloads' ! 1))
     \<and> slice buffer 6 3 = map Some [7, 8, 9]"
proof -
  obtain st c ps bs ns where
    r: "SetInputTensor ex_ext ex_ctx ''in'' 2 [3] 3 ex_short [] [] = (st, c, ps, bs, ns)"
    by (rule prod_cases5)
  have b1: "(3::nat) = batch1_byte_size ex_ext 2 [3]"
    by (simp add: batch1_byte_size_def batch1_element_cnt_def size_t_def size_t_of_int_def
          ex_ext_def)
  have h1: "sum_list (batch_sizes ex_short) = 3" by (simp add: batch_sizes_def ex_defs)
  have h2: "\<forall>p\<in>set ex_short. chunks_fit (3 * 3) (content (request_provider p) ''in'')"
    by (simp add: ex_defs IsOk_def Success_def)
  from SetInputTensor_fails_single_payload[OF h1 b1 _ h2 r] obtain buffer where
    b: "bs = [buffer]" and st: "st = Success" and len: "length ps = length ex_short"
    and sts: "\<forall>i<length ex_short.
           IsOk (status (ps ! i)) \<longleftrightarrow> delivers_exactly ''in'' 3 (ex_short ! i)"
    and lay: "\<forall>i<length ex_short. delivers_exactly ''in'' 3 (ex_short ! i) \<longrightarrow>
           slice buffer (sum_list (take i (batch_sizes ex_short)) * 3)
                 (batch_size (request_provider (ex_short ! i)) * 3)
             = map Some (the (delivered (content (request_provider (ex_short ! i)) ''in'')))"
    by (auto simp: ex_ext_def)
  from sts[rule_format, of 0] have s0: "\<not> IsOk (status (ps ! 0))"
    by (simp add: delivers_exactly_def ex_defs IsOk_def Success_def)
  from sts[rule_format, of 1] have s1: "IsOk (status (ps ! 1))"
    by (simp add: delivers_exactly_def ex_defs IsOk_def Success_def)
  from lay[rule_format, of 1] have l1: "slice buffer 6 3 = map Some [7, 8, 9]"
    by (simp add: delivers_exactly_def batch_sizes_def ex_defs IsOk_def Success_def)
  from len have "length ps = 2" by (simp add: ex_defs)
  with r b st s0 s1 l1 show ?thesis by blast
qed

subsection \<open>C7: the size check of an output\<close>

text \<open>
  Claim C7 says that \<open>ReadOutputTensors\<close> verifies that the byte size of every output
  equals the total batch size times the per-item byte size of the configured datatype and
  shape, and fails the run on a mismatch. The source compares the element count of the
  returned tensor times the size of the configured datatype with the same element count
  times the size of the tensor's own datatype (lines 522-536); the configured shape and
  the total batch size take no part. At a total batch size of 3 and a configured output
  of three one-byte elements per item, nine bytes are expected; for the four bytes of
  \<open>ex_short_output\<close> the call returns success and hands the payloads slices of two bytes
  and of one byte, the per-item size being \<open>4 div 3 = 1\<close>.
\<close>

theorem ReadOutputTensors_accepts_short_output:
  "length (data ex_short_output) = 4
   \<and> fst (ReadOutputTensors ex_ext ex_base ex_ctx_short 3 [''out''] ex_two) = Success
   \<and> map (map_option requests \<circ> response_provider)
         (snd (ReadOutputTensors ex_ext ex_base ex_ctx_short 3 [''out''] ex_two))
       = [Some [(''out'', 2, Some [Some 1, Some 2])], Some [(''out'', 1, Some [Some 3])]]"
  by (simp add: ex_defs run_defs)

subsection \<open>C8: one call of the runtime, with all configured outputs\<close>




subsection \<open>C9: release of the run's resources, one completion\<close>

text \<open>
  Claim C9. Every call of \<open>OnnxBackend::Run\<close> extends the trace by events \<open>evs\<close> that
  contain no completion, followed by exactly one completion, which is last. The model
  configuration, the number of contexts, the session handle and the allocator handle of
  every context, and every context but the runner's are unchanged. When the runner index
  is valid, the completion carries the status \<open>Context::Run\<close> returned, whatever it is;
  \<open>evs\<close> is what that run did, then the release of every input tensor that is set, then
  the release of every output tensor that is set, so each of these handles is released
  before the completion; and both handle lists of the context are empty afterwards.
\<close>

theorem OnnxBackend_Run_releases:
  assumes run: "OnnxBackend_Run ext base runner_idx payloads trace = (base', payloads', trace')"
  shows "\<exists>evs st. trace' = trace @ evs @ [EvOnComplete st] \<and> completions evs = []
     \<and> Config base' = Config base \<and> length (contexts base') = length (contexts base)
     \<and> (\<forall>j<length (contexts base).
           session (contexts base' ! j) = session (contexts base ! j)
           \<and> allocator_info (contexts base' ! j) = allocator_info (contexts base ! j)
           \<and> (j \<noteq> runner_idx \<longrightarrow> contexts base' ! j = contexts base ! j))
     \<and> (runner_idx < length (contexts base) \<longrightarrow>
          (\<exists>ctx1 run_evs.
             Context_Run ext base (contexts base ! runner_idx) payloads trace
               = (st, ctx1, payloads', trace @ run_evs)
             \<and> evs = run_evs @ release_all (input_tensors ctx1) @ release_all (output_tensors ctx1)
             \<and> (\<forall>t. Some t \<in> set (input_tensors ctx1) \<union> set (output_tensors ctx1)
                    \<longrightarrow> EvOrtReleaseValue t \<in> set evs)
             \<and> input_tensors (contexts base' ! runner_idx) = []
             \<and> output_tensors (contexts base' ! runner_idx) = []))"
proof (cases "runner_idx < length (contexts base)")
  case False
  with run have "base' = base" "trace' = trace @ [] @ [EvOnComplete (Status INTERNAL)]"
    by (auto simp: OnnxBackend_Run_def)
  with False show ?thesis by (auto simp: completions_def)
next
  case True
  obtain st ctx1 ps1 trace1 where
    c: "Context_Run ext base (contexts base ! runner_idx) payloads trace = (st, ctx1, ps1, trace1)"
    by (rule prod_cases4)
  from Context_Run_event[OF c] obtain run_evs where
    t1: "trace1 = trace @ run_evs" and nc: "completions run_evs = []"
    by (auto simp: completions_def)
  note f = Context_Run_frame[OF c]
  define evs where
    "evs = run_evs @ release_all (input_tensors ctx1) @ release_all (output_tensors ctx1)"
  from run True c have res: "payloads' = ps1"
    "base' = base\<lparr>contexts := (contexts base)
               [runner_idx := ctx1\<lparr>input_tensors := [], output_tensors := []\<rparr>]\<rparr>"
    "trace' = trace @ evs @ [EvOnComplete st]"
    by (auto simp: OnnxBackend_Run_def ReleaseOrtRunResources_def t1 evs_def)
  have ce: "completions evs = []"
    by (simp add: evs_def completions_append nc completions_release_all)
  have rel: "\<forall>t. Some t \<in> set (input_tensors ctx1) \<union> set (output_tensors ctx1)
                    \<longrightarrow> EvOrtReleaseValue t \<in> set evs"
    by (auto simp: evs_def dest: release_all_mem)
  have per: "\<forall>j<length (contexts base).
           session (contexts base' ! j) = session (contexts base ! j)
           \<and> allocator_info (contexts base' ! j) = allocator_info (contexts base ! j)
           \<and> (j \<noteq> runner_idx \<longrightarrow> contexts base' ! j = contexts base ! j)"
  proof (intro allI impI)
    fix j assume j: "j < length (contexts base)"
    show "session (contexts base' ! j) = session (contexts base ! j)
           \<and> allocator_info (contexts base' ! j) = allocator_info (contexts base ! j)
           \<and> (j \<noteq> runner_idx \<longrightarrow> contexts base' ! j = contexts base ! j)"
    proof (cases "j = runner_idx")
      case True
      with res(2) f j show ?thesis by simp
    next
      case False
      with res(2) j show ?thesis by simp
    qed
  qed
  have "Context_Run ext base (contexts base ! runner_idx) payloads trace
               = (st, ctx1, payloads', trace @ run_evs)
        \<and> evs = run_evs @ release_all (input_tensors ctx1) @ release_all (output_tensors ctx1)
        \<and> (\<forall>t. Some t \<in> set (input_tensors ctx1) \<union> set (output_tensors ctx1)
                    \<longrightarrow> EvOrtReleaseValue t \<in> set evs)
        \<and> input_tensors (contexts base' ! runner_idx) = []
        \<and> output_tensors (contexts base' ! runner_idx) = []"
    using c res t1 rel True by (simp add: evs_def)
  then show ?thesis using res(2,3) ce per by (intro exI[of _ evs] exI[of _ st]) auto
qed

text \<open>The theorem at \<open>ex_payloads\<close> on runner 0.\<close>

theorem OnnxBackend_Run_releases_witness:
  "\<exists>base' payloads' evs st.
     OnnxBackend_Run ex_ext ex_base 0 ex_payloads [] = (base', payloads', evs @ [EvOnComplete st])
     \<and> completions evs = []
     \<and> input_tensors (contexts base' ! 0) = [] \<and> output_tensors (contexts base' ! 0) = []
     \<and> session (contexts base' ! 0) = Some 1 \<and> allocator_info (contexts base' ! 0) = Some 2"
proof -
  obtain b ps tr where r: "OnnxBackend_Run ex_ext ex_base 0 ex_payloads [] = (b, ps, tr)"
    by (rule prod_cases3)
  have l: "(0::nat) < length (contexts ex_base)" by (simp add: ex_defs)
  from OnnxBackend_Run_releases[OF r] l obtain evs st where
    "tr = evs @ [EvOnComplete st]" "completions evs = []"
    "session (contexts b ! 0) = session (contexts ex_base ! 0)"
    "allocator_info (contexts b ! 0) = allocator_info (contexts ex_base ! 0)"
    "input_tensors (contexts b ! 0) = []" "output_tensors (contexts b ! 0) = []"
    by auto
  with r show ?thesis by (auto simp: ex_defs)
qed

subsection \<open>C10: the inputs that are assembled\<close>

text \<open>
  Claim C10 says that the inputs assembled for a run are every input the model
  configuration declares and, in addition, every input override that any payload of the
  batch supplies. Neither half holds. In the dispatch of \<open>ex_overriding\<close>, which supplies
  the override \<open>extra\<close>, followed by a payload without overrides, the runtime is called
  with the input \<open>in\<close> alone. In the dispatch of \<open>ex_noin\<close>, whose request header names no
  input, the runtime is called with no input, although the configuration declares \<open>in\<close>.
  The source takes the inputs and the overrides from one representative provider, that
  of the last payload (lines 316-318, 343, 358-359), and leaves the check of the header
  against the configuration to the request provider (lines 301-304).
\<close>

theorem Run_skips_inputs_counterexample:
  "overrides (request_provider ex_overriding) = [(''extra'', 2, [1])]
   \<and> invoked_inputs (snd (snd (snd
        (Context_Run ex_ext ex_base ex_ctx [ex_overriding, ex_payload 1 [[4, 5, 6]]] []))))
      = [[''in'']]
   \<and> map io_name (config_input (Config ex_base)) = [''in'']
   \<and> invoked_inputs (snd (snd (snd (Context_Run ex_ext ex_base ex_ctx [ex_noin] [])))) = [[]]"
  by (simp add: ex_defs run_defs)

text \<open>
  Claim C10 as amended: for every dispatch that calls the runtime (the sum of the batch
  sizes fitting a \<^verbatim>\<open>size_t\<close>), with \<open>irp\<close> the request provider of the last payload, the
  inputs assembled are, in this order, the inputs named in the request header of \<open>irp\<close>,
  each declared in the model configuration and taken with its configured datatype, and
  then the input overrides that \<open>irp\<close> supplies, each with its own datatype and
  dimensions; the context that is handed to the runtime is the one input assembly
  (\<open>assemble\<close>, each input by \<open>SetInputTensor\<close> over all payloads of the batch) leaves;
  it holds one more tensor for each of these inputs, wrapping that input's buffer with
  the input's shape and element type; and the runtime is called with exactly these names
  and the tensors of that context. Every input the configuration declares is among
  them when the request header of \<open>irp\<close> names it. Overrides that only other payloads
  supply are not assembled.
\<close>

theorem Run_inputs_of_representative:
  assumes "Context_Run ext base ctx payloads trace = (st, ctx', payloads', trace')"
    and "trace' \<noteq> trace"
    and "sum_list (batch_sizes payloads) < 2 ^ 64"
    and "irp = request_provider (last payloads)"
    and "names = map fst (input irp) @ map fst (overrides irp)"
  shows "payloads \<noteq> []
    \<and> (\<exists>specs ctx2 payloads2 buffers.
          map (\<lambda>(nm, dt, dims). (nm, dims)) specs = input irp
        \<and> list_all (\<lambda>(nm, dt, dims). \<exists>io. GetInput base nm = Inr io \<and> dt = data_type io) specs
        \<and> assemble ext (sum_list (batch_sizes payloads)) (specs @ overrides irp) ctx payloads [] []
             = Some (ctx2, payloads2, buffers, names)
        \<and> length buffers = length names
        \<and> input_tensors ctx2 = input_tensors ctx
              @ map (\<lambda>((nm, dt, dims), buffer).
                       Some \<lparr>data = buffer,
                             shape = input_dims ctx (sum_list (batch_sizes payloads)) dims,
                             elem_type = ConvertToOnnxDataType ext dt\<rparr>)
                    (zip (specs @ overrides irp) buffers)
        \<and> trace' = trace @ [EvOrtRun names (input_tensors ctx2)
                               (map io_name (config_output (Config base)))])
    \<and> fst ` set (input irp) \<subseteq> io_name ` set (config_input (Config base))
    \<and> (io_name ` set (config_input (Config base)) \<subseteq> fst ` set (input irp)
         \<longrightarrow> io_name ` set (config_input (Config base)) \<subseteq> set names)"
proof -
  from Context_Run_assembled[OF assms(1-3)] have ne: "payloads \<noteq> []"
    and rc: "Run_compute ext base ctx (sum_list (batch_sizes payloads))
      (Some irp) payloads trace = (st, ctx', payloads', trace')"
    using assms(4) by auto
  from Run_compute_assembled[OF rc assms(2)] obtain specs ctx2 ps2 buffers where
    f: "map (\<lambda>(nm, dt, dims). (nm, dims)) specs = input irp"
    "list_all (\<lambda>(nm, dt, dims). \<exists>io. GetInput base nm = Inr io \<and> dt = data_type io) specs"
    "assemble ext (sum_list (batch_sizes payloads)) (specs @ overrides irp) ctx payloads [] []
         = Some (ctx2, ps2, buffers, names)"
    "length buffers = length (specs @ overrides irp)"
    "input_tensors ctx2 = input_tensors ctx
          @ map (\<lambda>((nm, dt, dims), buffer).
                   Some \<lparr>data = buffer,
                         shape = input_dims ctx (sum_list (batch_sizes payloads)) dims,
                         elem_type = ConvertToOnnxDataType ext dt\<rparr>)
                (zip (specs @ overrides irp) buffers)"
    "trace' = trace @ [EvOrtRun names (input_tensors ctx2)
                           (map io_name (config_output (Config base)))]"
    using assms(5) by blast
  have "length specs = length (input irp)" using f(1) by (metis length_map)
  with f(4) assms(5) have len: "length buffers = length names" by simp
  have decl: "fst ` set (input irp) \<subseteq> io_name ` set (config_input (Config base))"
    using Context_Run_declared[OF assms(1,2)] assms(4) by simp
  have all: "io_name ` set (config_input (Config base)) \<subseteq> fst ` set (input irp)
         \<longrightarrow> io_name ` set (config_input (Config base)) \<subseteq> set names"
    using assms(5) by auto
  from ne f len decl all show ?thesis by blast
qed

text \<open>
  The amended claim at a dispatch whose last payload is \<open>ex_overriding\<close>: the tensors
  for \<open>in\<close> and for \<open>extra\<close>, the latter with an unwritten cell where the first payload
  has no content for it.
\<close>

theorem Run_inputs_of_representative_witness:
  "\<exists>st ctx' payloads'.
     Context_Run ex_ext ex_base ex_ctx [ex_payload 1 [[4, 5, 6]], ex_overriding] []
       = (st, ctx', payloads',
          [EvOrtRun [''in'', ''extra'']
             [Some \<lparr>data = map Some [4, 5, 6, 1, 2, 3], shape = [2, 3], elem_type = 2\<rparr>,
              Some \<lparr>data = [None, Some 9], shape = [2, 1], elem_type = 2\<rparr>]
             [''out'']])"
proof -
  obtain st c ps tr where
    r: "Context_Run ex_ext ex_base ex_ctx [ex_payload 1 [[4, 5, 6]], ex_overriding] []
          = (st, c, ps, tr)"
    by (rule prod_cases4)
  have "snd (snd (snd (Context_Run ex_ext ex_base ex_ctx
           [ex_payload 1 [[4, 5, 6]], ex_overriding] []))) \<noteq> []"
    by (simp add: ex_defs run_defs)
  with r have ne: "tr \<noteq> []" by simp
  have fit: "sum_list (batch_sizes [ex_payload 1 [[4, 5, 6]], ex_overriding]) < 2 ^ 64"
    by (simp add: batch_sizes_def ex_defs)
  note w = Run_inputs_of_representative[OF r ne fit refl refl, THEN conjunct2, THEN conjunct1]
  from w obtain specs ctx2 ps2 buffers where
    sp: "map (\<lambda>(nm, dt, dims). (nm, dims)) specs
           = input (request_provider (last [ex_payload 1 [[4, 5, 6]], ex_overriding]))"
    and dt: "list_all (\<lambda>(nm, dt, dims). \<exists>io. GetInput ex_base nm = Inr io \<and> dt = data_type io) specs"
    and asm: "assemble ex_ext (sum_list (batch_sizes [ex_payload 1 [[4, 5, 6]], ex_overriding]))
             (specs @ overrides (request_provider (last [ex_payload 1 [[4, 5, 6]], ex_overriding])))
             ex_ctx [ex_payload 1 [[4, 5, 6]], ex_overriding] [] []
             = Some (ctx2, ps2, buffers,
                 map fst (input (request_provider (last [ex_payload 1 [[4, 5, 6]], ex_overriding])))
                 @ map fst (overrides (request_provider (last [ex_payload 1 [[4, 5, 6]], ex_overriding]))))"
    and tr: "tr = [] @ [EvOrtRun
                 (map fst (input (request_provider (last [ex_payload 1 [[4, 5, 6]], ex_overriding])))
                 @ map fst (overrides (request_provider (last [ex_payload 1 [[4, 5, 6]], ex_overriding]))))
                 (input_tensors ctx2) (map io_name (config_output (Config ex_base)))]"
    by (elim exE conjE) (rule that; assumption)
  from sp dt have specs: "specs = [(''in'', 2, [3])]"
    by (cases specs) (auto simp: ex_defs GetInput_def)
  from asm have "input_tensors ctx2 =
             [Some \<lparr>data = map Some [4, 5, 6, 1, 2, 3], shape = [2, 3], elem_type = 2\<rparr>,
              Some \<lparr>data = [None, Some 9], shape = [2, 1], elem_type = 2\<rparr>]"
    unfolding specs by (simp add: ex_defs run_defs batch_sizes_def) auto
  with tr have "tr = [EvOrtRun [''in'', ''extra'']
             [Some \<lparr>data = map Some [4, 5, 6, 1, 2, 3], shape = [2, 3], elem_type = 2\<rparr>,
              Some \<lparr>data = [None, Some 9], shape = [2, 1], elem_type = 2\<rparr>]
             [''out'']]"
    by (simp add: ex_defs overrides_def)
  with r show ?thesis by blast
qed

end
